theory Spec2Isabelle
  imports Complex_Main "HOL-Library.Word" "HOL-Library.Multiset"
begin

section \<open>Conventions of the embedding\<close>

text \<open>
  The Go sources compute on \<^verbatim>\<open>float64\<close>. The embedding reads every \<^verbatim>\<open>float64\<close> as a
  \<^typ>\<open>real\<close>: comparisons, branches and the order of the operations are those of the
  source, rounding is not modelled, and the values NaN and infinity do not exist.
  The counters declared \<^verbatim>\<open>int64\<close> are \<^typ>\<open>64 word\<close> read as two's complement
  (\<^const>\<open>sint\<close>, \<open><s\<close>), so that \<^verbatim>\<open>++\<close> wraps as it does in Go; Go's \<^verbatim>\<open>int\<close> is taken
  at its width on 64-bit targets. Slice indices and lengths, which the sources keep
  inside the slice, are \<^typ>\<open>nat\<close>; where an index can leave the slice the function
  returns \<^const>\<open>None\<close>, which stands for the run-time panic of the source.
\<close>

section \<open>Filters: AdaptiveThresholder (src/Filters/AdaptiveThresholder.go)\<close>

record AdaptiveThresholder =
  maxLevel :: real
  minLevel :: real
  decayRate :: real
  minRange :: real

definition NewAdaptiveThresholder :: "real \<Rightarrow> real \<Rightarrow> AdaptiveThresholder" where
  "NewAdaptiveThresholder dr mr =
     \<lparr>maxLevel = 0, minLevel = 0, decayRate = dr, minRange = mr\<rparr>"

text \<open>The tracker state after the three updates of \<^verbatim>\<open>Update\<close> (steps 1, 2 and the safety check).\<close>

definition track :: "AdaptiveThresholder \<Rightarrow> real \<Rightarrow> AdaptiveThresholder" where
  "track th sample =
     (let th1 = (if sample > maxLevel th then th\<lparr>maxLevel := sample\<rparr>
                 else th\<lparr>maxLevel := maxLevel th * decayRate th\<rparr>);
          th2 = (if sample < minLevel th1 then th1\<lparr>minLevel := sample\<rparr>
                 else th1\<lparr>minLevel := minLevel th1
                        + (maxLevel th1 - minLevel th1) * (1.0 - decayRate th1)\<rparr>)
      in if minLevel th2 > maxLevel th2 then th2\<lparr>minLevel := maxLevel th2\<rparr> else th2)"

text \<open>\<^verbatim>\<open>func (at *AdaptiveThresholder) Update(sample float64) (high, low float64)\<close>:
  the new tracker and the pair (high, low).\<close>

definition AdaptiveThresholder_Update ::
  "AdaptiveThresholder \<Rightarrow> real \<Rightarrow> AdaptiveThresholder \<times> real \<times> real" where
  "AdaptiveThresholder_Update th sample =
     (let th' = track th sample;
          dynRange = maxLevel th' - minLevel th'
      in if dynRange < minRange th' then (th', 10.0, 9.0)
         else (let center = minLevel th' + (dynRange * 0.5);
                   hysteresis = dynRange * 0.05
               in (th', center + hysteresis, center - hysteresis)))"

section \<open>Filters: SchmittTrigger (src/Filters/StateDetection.go)\<close>

record StateTransition =
  FinishedState :: bool
  DurationMs :: real

record SchmittTrigger =
  thresholdHigh :: real
  thresholdLow :: real
  sampleRate :: real
  debounceCount :: "64 word"
  currentState :: bool
  totalSamples :: "64 word"
  stateStartSample :: "64 word"
  pendingChange :: bool
  changeStartSample :: "64 word"
  thresholder :: AdaptiveThresholder

text \<open>\<^verbatim>\<open>NewSchmittTrigger\<close>; the conversion \<^verbatim>\<open>int64(debounceMs * sampleRate)\<close> truncates
  towards zero.\<close>

definition trunc_int :: "real \<Rightarrow> int" where
  "trunc_int x = (if 0 \<le> x then \<lfloor>x\<rfloor> else \<lceil>x\<rceil>)"

definition trunc_int64 :: "real \<Rightarrow> 64 word" where
  "trunc_int64 x = word_of_int (trunc_int x)"

definition NewSchmittTrigger :: "real \<Rightarrow> real \<Rightarrow> real \<Rightarrow> real \<Rightarrow> SchmittTrigger" where
  "NewSchmittTrigger sr high low debounceMs =
     \<lparr>thresholdHigh = high, thresholdLow = low, sampleRate = sr,
      debounceCount = trunc_int64 (debounceMs * sr),
      currentState = False, totalSamples = 0, stateStartSample = 0,
      pendingChange = False, changeStartSample = 0,
      thresholder = NewAdaptiveThresholder 0.9995 0.005\<rparr>"

definition SetThresholds :: "SchmittTrigger \<Rightarrow> real \<Rightarrow> real \<Rightarrow> SchmittTrigger" where
  "SetThresholds st high low = st\<lparr>thresholdHigh := high, thresholdLow := low\<rparr>"

text \<open>Step 1 of \<^verbatim>\<open>Feed\<close>: the raw Schmitt decision, from the trigger's own thresholds.\<close>

definition rawSignal :: "SchmittTrigger \<Rightarrow> real \<Rightarrow> bool" where
  "rawSignal st envelope =
     (if currentState st
      then (if envelope < thresholdLow st then False else currentState st)
      else (if envelope > thresholdHigh st then True else currentState st))"

text \<open>\<^verbatim>\<open>func (st *SchmittTrigger) Feed(envelope float64) *StateTransition\<close>. The pair
  \<open>(h, l)\<close> returned by the thresholder is only printed by the source (the call
  \<^verbatim>\<open>st.SetThresholds(h, l)\<close> is commented out), so only the thresholder's new state is
  kept. \<^const>\<open>None\<close> is the \<^verbatim>\<open>nil\<close> result.\<close>

definition Feed :: "SchmittTrigger \<Rightarrow> real \<Rightarrow> SchmittTrigger \<times> StateTransition option" where
  "Feed st0 envelope =
     (let st1 = st0\<lparr>totalSamples := totalSamples st0 + 1\<rparr>;
          (th', h, l) = AdaptiveThresholder_Update (thresholder st1) envelope;
          st = st1\<lparr>thresholder := th'\<rparr>;
          raw = rawSignal st envelope
      in if raw = currentState st then (st\<lparr>pendingChange := False\<rparr>, None)
         else if \<not> pendingChange st
         then (st\<lparr>pendingChange := True, changeStartSample := totalSamples st\<rparr>, None)
         else (let pendingDuration = totalSamples st - changeStartSample st
               in if debounceCount st <s pendingDuration
                  then (let prevDurationSamples = changeStartSample st - stateStartSample st;
                            durationMs = (real_of_int (sint prevDurationSamples) / sampleRate st)
                                         * 1000.0;
                            finishedState = currentState st
                        in (st\<lparr>currentState := raw,
                               stateStartSample := changeStartSample st,
                               pendingChange := False\<rparr>,
                            Some \<lparr>FinishedState = finishedState, DurationMs = durationMs\<rparr>))
                  else (st, None)))"

text \<open>Feeding a sequence of envelope samples: the final trigger and the events in order.\<close>

fun FeedAll :: "SchmittTrigger \<Rightarrow> real list \<Rightarrow> SchmittTrigger \<times> StateTransition list" where
  "FeedAll st [] = (st, [])"
| "FeedAll st (e # es) =
     (let (st', ev) = Feed st e; (st'', evs) = FeedAll st' es
      in (st'', (case ev of None \<Rightarrow> [] | Some t \<Rightarrow> [t]) @ evs))"

section \<open>Filters: AFC (src/unnamed/part_007)\<close>

record AFC =
  afc_sampleRate :: real
  signalConsecutive :: "64 word"
  CurrentFreq :: real
  targetFreq :: real
  prevPhase :: real
  phaseInc :: real
  gain :: real

definition updatePhaseInc :: "AFC \<Rightarrow> AFC" where
  "updatePhaseInc s = s\<lparr>phaseInc := 2 * pi * CurrentFreq s / afc_sampleRate s\<rparr>"

definition NewAFC :: "real \<Rightarrow> real \<Rightarrow> AFC" where
  "NewAFC sr tf =
     updatePhaseInc \<lparr>afc_sampleRate = sr, signalConsecutive = 0, CurrentFreq = tf,
                     targetFreq = tf, prevPhase = 0, phaseInc = 0, gain = 0.0002\<rparr>"

text \<open>\<^verbatim>\<open>math.Atan2(y, x)\<close> of Go's standard library, by its mathematical definition:
  the angle of the point \<open>(x, y)\<close> in \<open>(-\<pi>, \<pi>]\<close>, and 0 at the origin.\<close>

definition Atan2 :: "real \<Rightarrow> real \<Rightarrow> real" where
  "Atan2 y x =
     (if 0 < x then arctan (y / x)
      else if x < 0 then (if 0 \<le> y then arctan (y / x) + pi else arctan (y / x) - pi)
      else if 0 < y then pi / 2
      else if y < 0 then - (pi / 2)
      else 0)"

text \<open>Steps 3 and 4 of \<^verbatim>\<open>Update\<close>: the wrapped phase difference as a frequency error in Hz.\<close>

definition freqError :: "AFC \<Rightarrow> real \<Rightarrow> real" where
  "freqError s currentPhase =
     (let phaseDelta0 = currentPhase - prevPhase s;
          phaseDelta = (if phaseDelta0 > pi then phaseDelta0 - 2 * pi
                        else if phaseDelta0 < - pi then phaseDelta0 + 2 * pi
                        else phaseDelta0)
      in phaseDelta * afc_sampleRate s / (2 * pi))"

text \<open>\<^verbatim>\<open>func (s *AFC) Update(filteredI, filteredQ, envelope float64) float64\<close>: the new
  state and the returned phase increment.\<close>

definition AFC_Update :: "AFC \<Rightarrow> real \<Rightarrow> real \<Rightarrow> real \<Rightarrow> AFC \<times> real" where
  "AFC_Update s filteredI filteredQ envelope =
     (if envelope > 0.005
      then (let currentPhase = Atan2 filteredQ filteredI;
                s1 = (if 5 <s signalConsecutive s
                      then (if \<bar>freqError s currentPhase\<bar> > 2.0
                            then (let correction = freqError s currentPhase * gain s;
                                      s2 = s\<lparr>CurrentFreq := CurrentFreq s + correction\<rparr>;
                                      s3 = (if CurrentFreq s2 > targetFreq s2 + 100
                                            then s2\<lparr>CurrentFreq := targetFreq s2 + 100\<rparr>
                                            else if CurrentFreq s2 < targetFreq s2 - 100
                                            then s2\<lparr>CurrentFreq := targetFreq s2 - 100\<rparr>
                                            else s2)
                                  in updatePhaseInc s3)
                            else s)
                      else s);
                s4 = s1\<lparr>prevPhase := currentPhase,
                        signalConsecutive := signalConsecutive s1 + 1\<rparr>
            in (s4, phaseInc s4))
      else (let s' = s\<lparr>signalConsecutive := 0\<rparr> in (s', phaseInc s')))"

text \<open>A sequence of \<^verbatim>\<open>Update\<close> calls, each input a triple (filteredI, filteredQ, envelope).\<close>

fun AFC_run :: "AFC \<Rightarrow> (real \<times> real \<times> real) list \<Rightarrow> AFC" where
  "AFC_run s [] = s"
| "AFC_run s ((i, q, e) # xs) = AFC_run (fst (AFC_Update s i q e)) xs"

text \<open>The number of samples at the end of the input that are all above the signal gate.\<close>

definition aboveGateRun :: "(real \<times> real \<times> real) list \<Rightarrow> nat" where
  "aboveGateRun xs = length (takeWhile (\<lambda>(i, q, e). e > 0.005) (rev xs))"

section \<open>Filters: HistoryOptimizer (src/unnamed/part_008)\<close>

record HistoryOptimizer =
  buffer :: "real list"
  head :: nat
  isFull :: bool
  ho_sampleRate :: real
  downSample :: int
  counter :: int

text \<open>\<^verbatim>\<open>NewHistoryOptimizer\<close>; \<^verbatim>\<open>make\<close> panics on a negative length.\<close>

definition NewHistoryOptimizer :: "real \<Rightarrow> real \<Rightarrow> HistoryOptimizer option" where
  "NewHistoryOptimizer historyDuration sr =
     (let targetRate = 100.0;
          downSample0 = trunc_int (sr / targetRate);
          downSample1 = (if downSample0 < 1 then 1 else downSample0);
          bufferSize = trunc_int (historyDuration * targetRate)
      in if bufferSize < 0 then None
         else Some \<lparr>buffer = replicate (nat bufferSize) 0, head = 0, isFull = False,
                    ho_sampleRate = sr, downSample = downSample1, counter = 0\<rparr>)"

text \<open>\<^verbatim>\<open>Push\<close>; the write \<^verbatim>\<open>h.buffer[h.head]\<close> panics outside the buffer.\<close>

definition Push :: "HistoryOptimizer \<Rightarrow> real \<Rightarrow> HistoryOptimizer option" where
  "Push h v =
     (let h1 = h\<lparr>counter := counter h + 1\<rparr>
      in if counter h1 < downSample h1 then Some h1
         else (let h2 = h1\<lparr>counter := 0\<rparr>
               in if head h2 < length (buffer h2)
                  then (let h3 = h2\<lparr>buffer := (buffer h2)[head h2 := v]\<rparr>;
                            h4 = h3\<lparr>head := (head h3 + 1) mod length (buffer h3)\<rparr>
                        in Some (if head h4 = 0 then h4\<lparr>isFull := True\<rparr> else h4))
                  else None))"

text \<open>\<^verbatim>\<open>func (h *HistoryOptimizer) SuggestThreshold() (float64, float64, float64)\<close>:
  (threshold, peak, noise). The slice \<^verbatim>\<open>h.buffer[:h.head]\<close> and the two reads of
  \<^verbatim>\<open>data\<close> panic out of range; \<^verbatim>\<open>sort.Float64s\<close> sorts in increasing order.\<close>

definition SuggestThreshold :: "HistoryOptimizer \<Rightarrow> (real \<times> real \<times> real) option" where
  "SuggestThreshold h =
     (if \<not> isFull h \<and> head h = 0 then Some (0.05, 0.1, 0.0)
      else if \<not> isFull h \<and> length (buffer h) < head h then None
      else (let data = sort (if isFull h then buffer h else take (head h) (buffer h));
                count = length data;
                noiseIndex = nat (trunc_int (real count * 0.10));
                signalIndex = nat (trunc_int (real count * 0.95))
            in if count \<le> noiseIndex \<or> count \<le> signalIndex then None
               else (let noiseFloor = data ! noiseIndex;
                         signalPeak = data ! signalIndex
                     in if signalPeak < noiseFloor * 1.5
                        then Some (noiseFloor * 3.0, signalPeak, noiseFloor)
                        else Some (noiseFloor + (signalPeak - noiseFloor) * 0.2,
                                   signalPeak, noiseFloor))))"

text \<open>The samples the optimizer holds: the whole ring once it is full, else the part
  written so far.\<close>

definition available :: "HistoryOptimizer \<Rightarrow> real list" where
  "available h = (if isFull h then buffer h else take (head h) (buffer h))"

text \<open>The optimizer that \<^verbatim>\<open>NewHistoryOptimizer(30.0, 48000)\<close> returns (the decoder's
  configuration), and a full ring of four samples.\<close>

definition freshOptimizer :: HistoryOptimizer where
  "freshOptimizer = \<lparr>buffer = replicate 3000 0, head = 0, isFull = False,
                      ho_sampleRate = 48000, downSample = 480, counter = 0\<rparr>"

definition smallOptimizer :: HistoryOptimizer where
  "smallOptimizer = \<lparr>buffer = [0.3, 0.1, 0.9, 0.2], head = 0, isFull = True,
                      ho_sampleRate = 400, downSample = 4, counter = 0\<rparr>"

section \<open>BeamDecoder: StatisticalAnalyzer (src/unnamed/part_004)\<close>

record StatisticalAnalyzer =
  windowSize :: nat
  history :: "real list"
  cursor :: nat
  full :: bool

record SignalStats =
  Mean :: real
  StdDev :: real
  Count :: nat

record StatsResult =
  OptimalThreshold :: real
  DitStats :: SignalStats
  DahStats :: SignalStats
  Confidence :: real
  Valid :: bool

definition NewAnalyzer :: "nat \<Rightarrow> StatisticalAnalyzer" where
  "NewAnalyzer n = \<lparr>windowSize = n, history = replicate n 0, cursor = 0, full = False\<rparr>"

text \<open>\<^verbatim>\<open>AddObservation\<close>: the write \<^verbatim>\<open>s.history[s.cursor]\<close> panics outside the slice and
  \<^verbatim>\<open>% s.windowSize\<close> panics when the window size is 0.\<close>

definition AddObservation :: "StatisticalAnalyzer \<Rightarrow> real \<Rightarrow> StatisticalAnalyzer option" where
  "AddObservation s duration =
     (if length (history s) \<le> cursor s then None
      else if windowSize s = 0 then None
      else (let s1 = s\<lparr>history := (history s)[cursor s := duration]\<rparr>;
                s2 = s1\<lparr>cursor := (cursor s1 + 1) mod windowSize s1\<rparr>
            in Some (if cursor s2 = 0 then s2\<lparr>full := True\<rparr> else s2)))"

text \<open>The zero value \<^verbatim>\<open>SignalStats{}\<close> and the result \<^verbatim>\<open>StatsResult{Valid: false}\<close>.\<close>

definition zeroStats :: SignalStats where
  "zeroStats = \<lparr>Mean = 0, StdDev = 0, Count = 0\<rparr>"

definition invalidResult :: StatsResult where
  "invalidResult = \<lparr>OptimalThreshold = 0, DitStats = zeroStats, DahStats = zeroStats,
                     Confidence = 0, Valid = False\<rparr>"

definition calculateStats :: "real list \<Rightarrow> SignalStats" where
  "calculateStats data =
     (if length data = 0 then zeroStats
      else (let total = fold (\<lambda>v acc. acc + v) data 0;
                mean = total / real (length data);
                varianceSum = fold (\<lambda>v acc. acc + (v - mean) ^ 2) data 0;
                stdDev = sqrt (varianceSum / real (length data))
            in \<lparr>Mean = mean, StdDev = stdDev, Count = length data\<rparr>))"

text \<open>The sorted copy of the window: \<^verbatim>\<open>make\<close>, \<^verbatim>\<open>copy\<close> (which copies the shorter of the
  two lengths) and \<^verbatim>\<open>sort.Float64s\<close>.\<close>

definition sortedWindow :: "StatisticalAnalyzer \<Rightarrow> real list" where
  "sortedWindow s =
     sort (take (windowSize s) (history s) @ replicate (windowSize s - length (history s)) 0)"

text \<open>The search loop of \<^verbatim>\<open>Analyze\<close> for the largest jump \<^verbatim>\<open>data[i+1] - data[i]\<close> with
  \<open>startIndex \<le> i < endIndex\<close>; the pair is (maxGap, splitIndex), initially (0, -1).\<close>

definition gapStep :: "real list \<Rightarrow> nat \<Rightarrow> real \<times> int \<Rightarrow> real \<times> int" where
  "gapStep data = (\<lambda>i (maxGap, splitIndex).
             (let gap = data ! (i + 1) - data ! i
              in if gap > maxGap then (gap, int i) else (maxGap, splitIndex)))"

definition findMaxGap :: "real list \<Rightarrow> nat \<Rightarrow> nat \<Rightarrow> real \<times> int" where
  "findMaxGap data startIndex endIndex =
     fold (gapStep data) [startIndex..<endIndex] (0, - 1)"

text \<open>\<^verbatim>\<open>func (s *StatisticalAnalyzer) Analyze() StatsResult\<close>. The analyzer itself is not
  changed by the call.\<close>

definition Analyze :: "StatisticalAnalyzer \<Rightarrow> StatsResult" where
  "Analyze s =
     (if \<not> full s then invalidResult
      else (let data = sortedWindow s;
                startIndex = nat (trunc_int (real (windowSize s) * 0.25));
                endIndex = nat (trunc_int (real (windowSize s) * 0.75));
                (maxGap, splitIndex) = findMaxGap data startIndex endIndex
            in if maxGap < 20.0 then invalidResult
               else (let dits = take (nat (splitIndex + 1)) data;
                         dahs = drop (nat (splitIndex + 1)) data;
                         ditStats = calculateStats dits;
                         dahStats = calculateStats dahs;
                         avgCV = (StdDev ditStats / Mean ditStats
                                  + StdDev dahStats / Mean dahStats) / 2.0;
                         confidence0 = 1.0 - avgCV;
                         confidence = (if confidence0 < 0 then 0.1 else confidence0)
                     in \<lparr>OptimalThreshold = (dits ! (length dits - 1) + dahs ! 0) / 2.0,
                         DitStats = ditStats, DahStats = dahStats,
                         Confidence = confidence, Valid = True\<rparr>)))"

text \<open>The shape every analyzer built by \<^verbatim>\<open>NewAnalyzer\<close> with a positive size keeps.\<close>

definition analyzer_ok :: "StatisticalAnalyzer \<Rightarrow> bool" where
  "analyzer_ok s = (length (history s) = windowSize s \<and> cursor s < windowSize s)"

text \<open>The average of the two coefficients of variation (standard deviation over mean) of a
  result, as \<^verbatim>\<open>Analyze\<close> computes it in \<^verbatim>\<open>avgCV\<close>.\<close>

definition avgCV :: "StatsResult \<Rightarrow> real" where
  "avgCV r = (StdDev (DitStats r) / Mean (DitStats r)
              + StdDev (DahStats r) / Mean (DahStats r)) / 2"

text \<open>A sequence of \<^verbatim>\<open>AddObservation\<close> calls.\<close>

fun AddObservations :: "StatisticalAnalyzer \<Rightarrow> real list \<Rightarrow> StatisticalAnalyzer option" where
  "AddObservations s [] = Some s"
| "AddObservations s (d # ds) =
     (case AddObservation s d of None \<Rightarrow> None | Some s' \<Rightarrow> AddObservations s' ds)"

text \<open>Two full windows of size 10 (the size \<^verbatim>\<open>NewCWDecoder\<close> uses): five marks of 50 ms with
  four of 100 ms and one of 9600 ms; and four marks of 1 ms and one of 96 ms with four of
  200 ms and one of 1200 ms.\<close>

definition skewedAnalyzer :: StatisticalAnalyzer where
  "skewedAnalyzer = \<lparr>windowSize = 10,
      history = [50, 100, 50, 100, 50, 100, 50, 100, 50, 9600], cursor = 0, full = True\<rparr>"

definition noisyAnalyzer :: StatisticalAnalyzer where
  "noisyAnalyzer = \<lparr>windowSize = 10,
      history = [1, 200, 1, 200, 1, 200, 1, 200, 96, 1200], cursor = 0, full = True\<rparr>"

section \<open>BeamDecoder: language model (src/BeamDecoder/LoadModel.go)\<close>

record LanguageModel =
  LogProbs :: "string \<rightharpoonup> (string \<rightharpoonup> real)"
  DefaultProb :: real

text \<open>\<^verbatim>\<open>NewLanguageModel\<close> reads the table of log-probabilities from a JSON file; the
  content of the file is the parameter here.\<close>

definition NewLanguageModel :: "(string \<rightharpoonup> (string \<rightharpoonup> real)) \<Rightarrow> LanguageModel" where
  "NewLanguageModel table = \<lparr>LogProbs = table, DefaultProb = ln 0.000001\<rparr>"

definition GetTransitionScore :: "LanguageModel \<Rightarrow> string \<Rightarrow> string \<Rightarrow> real" where
  "GetTransitionScore m prevChar nextChar =
     (case (case LogProbs m prevChar of
              None \<Rightarrow> None
            | Some nextMap \<Rightarrow> nextMap nextChar) of
        Some prob \<Rightarrow> prob
      | None \<Rightarrow> (if prevChar = [] then ln 0.05 else DefaultProb m))"

section \<open>BeamDecoder: beam search (src/BeamDecoder/BeamDecoder.go)\<close>

record StandardPattern =
  Char' :: string
  Sequence :: "real list"

definition Patterns :: "StandardPattern list" where
  "Patterns =
    [\<lparr>Char' = ''A'', Sequence = [1, 1, 3]\<rparr>,
     \<lparr>Char' = ''B'', Sequence = [3, 1, 1, 1, 1, 1, 1]\<rparr>,
     \<lparr>Char' = ''C'', Sequence = [3, 1, 1, 1, 3, 1, 1]\<rparr>,
     \<lparr>Char' = ''D'', Sequence = [3, 1, 1, 1, 1]\<rparr>,
     \<lparr>Char' = ''E'', Sequence = [1]\<rparr>,
     \<lparr>Char' = ''F'', Sequence = [1, 1, 1, 1, 3, 1, 1]\<rparr>,
     \<lparr>Char' = ''G'', Sequence = [3, 1, 3, 1, 1]\<rparr>,
     \<lparr>Char' = ''H'', Sequence = [1, 1, 1, 1, 1, 1, 1]\<rparr>,
     \<lparr>Char' = ''I'', Sequence = [1, 1, 1]\<rparr>,
     \<lparr>Char' = ''J'', Sequence = [1, 1, 3, 1, 3, 1, 3]\<rparr>,
     \<lparr>Char' = ''K'', Sequence = [3, 1, 1, 1, 3]\<rparr>,
     \<lparr>Char' = ''L'', Sequence = [1, 1, 3, 1, 1, 1, 1]\<rparr>,
     \<lparr>Char' = ''M'', Sequence = [3, 1, 3]\<rparr>,
     \<lparr>Char' = ''N'', Sequence = [3, 1, 1]\<rparr>,
     \<lparr>Char' = ''O'', Sequence = [3, 1, 3, 1, 3]\<rparr>,
     \<lparr>Char' = ''P'', Sequence = [1, 1, 3, 1, 3, 1, 1]\<rparr>,
     \<lparr>Char' = ''Q'', Sequence = [3, 1, 3, 1, 1, 1, 3]\<rparr>,
     \<lparr>Char' = ''R'', Sequence = [1, 1, 3, 1, 1]\<rparr>,
     \<lparr>Char' = ''S'', Sequence = [1, 1, 1, 1, 1]\<rparr>,
     \<lparr>Char' = ''T'', Sequence = [3]\<rparr>,
     \<lparr>Char' = ''U'', Sequence = [1, 1, 1, 1, 3]\<rparr>,
     \<lparr>Char' = ''V'', Sequence = [1, 1, 1, 1, 1, 1, 3]\<rparr>,
     \<lparr>Char' = ''W'', Sequence = [1, 1, 3, 1, 3]\<rparr>,
     \<lparr>Char' = ''X'', Sequence = [3, 1, 1, 1, 1, 1, 3]\<rparr>,
     \<lparr>Char' = ''Y'', Sequence = [3, 1, 1, 1, 3, 1, 3]\<rparr>,
     \<lparr>Char' = ''Z'', Sequence = [3, 1, 3, 1, 1, 1, 1]\<rparr>,
     \<lparr>Char' = ''0'', Sequence = [3, 1, 3, 1, 3, 1, 3, 1, 3]\<rparr>,
     \<lparr>Char' = ''1'', Sequence = [1, 1, 3, 1, 3, 1, 3, 1, 3]\<rparr>,
     \<lparr>Char' = ''2'', Sequence = [1, 1, 1, 1, 3, 1, 3, 1, 3]\<rparr>,
     \<lparr>Char' = ''3'', Sequence = [1, 1, 1, 1, 1, 1, 3, 1, 3]\<rparr>,
     \<lparr>Char' = ''4'', Sequence = [1, 1, 1, 1, 1, 1, 1, 1, 3]\<rparr>,
     \<lparr>Char' = ''5'', Sequence = [1, 1, 1, 1, 1, 1, 1, 1, 1]\<rparr>,
     \<lparr>Char' = ''6'', Sequence = [3, 1, 1, 1, 1, 1, 1, 1, 1]\<rparr>,
     \<lparr>Char' = ''7'', Sequence = [3, 1, 3, 1, 1, 1, 1, 1, 1]\<rparr>,
     \<lparr>Char' = ''8'', Sequence = [3, 1, 3, 1, 3, 1, 1, 1, 1]\<rparr>,
     \<lparr>Char' = ''9'', Sequence = [3, 1, 3, 1, 3, 1, 3, 1, 1]\<rparr>,
     \<lparr>Char' = ''.'', Sequence = [1, 1, 3, 1, 1, 1, 3, 1, 1, 1, 3]\<rparr>,
     \<lparr>Char' = '','', Sequence = [3, 1, 3, 1, 1, 1, 1, 1, 3, 1, 3]\<rparr>,
     \<lparr>Char' = ''?'', Sequence = [1, 1, 1, 1, 3, 1, 3, 1, 1, 1, 1]\<rparr>,
     \<lparr>Char' = [CHR 0x27], Sequence = [1, 1, 3, 1, 3, 1, 3, 1, 3, 1, 1]\<rparr>,
     \<lparr>Char' = ''!'', Sequence = [3, 1, 1, 1, 3, 1, 1, 1, 3, 1, 3]\<rparr>,
     \<lparr>Char' = ''/'', Sequence = [3, 1, 1, 1, 1, 1, 3, 1, 1]\<rparr>,
     \<lparr>Char' = ''('', Sequence = [3, 1, 1, 1, 3, 1, 3, 1, 1]\<rparr>,
     \<lparr>Char' = '')'', Sequence = [3, 1, 1, 1, 3, 1, 3, 1, 1, 1, 3]\<rparr>,
     \<lparr>Char' = ''&'', Sequence = [1, 1, 3, 1, 1, 1, 1, 1, 1]\<rparr>,
     \<lparr>Char' = '':'', Sequence = [3, 1, 3, 1, 3, 1, 1, 1, 1, 1, 1]\<rparr>,
     \<lparr>Char' = '';'', Sequence = [3, 1, 1, 1, 3, 1, 1, 1, 3, 1, 1]\<rparr>,
     \<lparr>Char' = ''='', Sequence = [3, 1, 1, 1, 1, 1, 1, 1, 3]\<rparr>,
     \<lparr>Char' = ''+'', Sequence = [1, 1, 3, 1, 1, 1, 3, 1, 1]\<rparr>,
     \<lparr>Char' = ''-'', Sequence = [3, 1, 1, 1, 1, 1, 1, 1, 1, 1, 3]\<rparr>,
     \<lparr>Char' = ''_'', Sequence = [1, 1, 1, 1, 3, 1, 3, 1, 1, 1, 3]\<rparr>,
     \<lparr>Char' = [CHR 0x22], Sequence = [1, 1, 3, 1, 1, 1, 1, 1, 3, 1, 1]\<rparr>,
     \<lparr>Char' = ''$'', Sequence = [1, 1, 1, 1, 1, 1, 3, 1, 1, 1, 1, 1, 3]\<rparr>,
     \<lparr>Char' = ''@'', Sequence = [1, 1, 3, 1, 3, 1, 1, 1, 3, 1, 1]\<rparr>]"

record Path =
  Sentence :: string
  LastChar :: string
  TotalScore :: real

record BeamDecoder =
  lm :: LanguageModel
  beamWidth :: int
  paths :: "Path list"
  patterns :: "StandardPattern list"
  bd_statsAnalyzer :: StatisticalAnalyzer

definition NewBeamDecoder :: "LanguageModel \<Rightarrow> BeamDecoder" where
  "NewBeamDecoder m =
     \<lparr>lm = m, beamWidth = 10,
      paths = [\<lparr>Sentence = [], LastChar = [], TotalScore = 0\<rparr>],
      patterns = Patterns, bd_statsAnalyzer = NewAnalyzer 20\<rparr>"

text \<open>The statistics \<^verbatim>\<open>Step\<close> scores with: the analyzer's result, or the default
  deviations 0.2 and 0.4 when the result is not valid.\<close>

definition defaultStats :: StatsResult where
  "defaultStats = \<lparr>OptimalThreshold = 0, DitStats = zeroStats\<lparr>StdDev := 0.2\<rparr>,
                    DahStats = zeroStats\<lparr>StdDev := 0.4\<rparr>, Confidence = 0, Valid = False\<rparr>"

definition currentStats :: "BeamDecoder \<Rightarrow> StatsResult" where
  "currentStats bd =
     (let r = Analyze (bd_statsAnalyzer bd) in if \<not> Valid r then defaultStats else r)"

text \<open>One term of the loop of \<^verbatim>\<open>CalculateEmissionScore_Advanced\<close>.\<close>

definition termScore :: "StatsResult \<Rightarrow> real \<Rightarrow> real \<Rightarrow> real" where
  "termScore stats observed expected =
     (let sigma0 = (if expected > 2.0 then StdDev (DahStats stats) else StdDev (DitStats stats));
          sigma1 = (if sigma0 < 0.25 then 0.25 else sigma0);
          sigma = (if sigma1 > 5.0 then 5.0 else sigma1);
          diff = observed - expected
      in - (diff * diff) / (2.0 * sigma * sigma))"

definition CalculateEmissionScore_Advanced :: "real list \<Rightarrow> real list \<Rightarrow> StatsResult \<Rightarrow> real" where
  "CalculateEmissionScore_Advanced signal pattern stats =
     (if length signal \<noteq> length pattern then - 1000.0
      else fold (\<lambda>(observed, expected) totalScore. totalScore + termScore stats observed expected)
             (zip signal pattern) 0)"

definition MaxBeamWidth :: nat where
  "MaxBeamWidth = 20"

definition PruneThreshold :: real where
  "PruneThreshold = 10.0"

text \<open>The loop of \<^verbatim>\<open>PrunePaths\<close> over the sorted candidates, with the map
  \<^verbatim>\<open>seenStates\<close> and the slice \<^verbatim>\<open>survivors\<close>.\<close>

fun pruneLoop :: "real \<Rightarrow> Path list \<Rightarrow> (string \<Rightarrow> bool) \<Rightarrow> Path list \<Rightarrow> Path list" where
  "pruneLoop bestScore [] seenStates survivors = survivors"
| "pruneLoop bestScore (path # rest) seenStates survivors =
     (if length survivors \<ge> MaxBeamWidth then survivors
      else if TotalScore path < bestScore - PruneThreshold then survivors
      else if seenStates (LastChar path) then pruneLoop bestScore rest seenStates survivors
      else pruneLoop bestScore rest (seenStates(LastChar path := True)) (survivors @ [path]))"

text \<open>What \<^verbatim>\<open>sort.Slice\<close> with the comparison \<^verbatim>\<open>TotalScore(i) > TotalScore(j)\<close> guarantees of
  its result: the same paths, in non-increasing order of score. The sort is not stable,
  so the order among equal scores is left open: the sorting function is a parameter
  \<open>sortSlice\<close> of \<^verbatim>\<open>PrunePaths\<close> and of its callers, and this is what is assumed of it.\<close>

definition sortsDescending :: "(Path list \<Rightarrow> Path list) \<Rightarrow> bool" where
  "sortsDescending sortSlice =
     (\<forall>xs. mset (sortSlice xs) = mset xs
           \<and> sorted_wrt (\<lambda>a b. TotalScore a \<ge> TotalScore b) (sortSlice xs))"

text \<open>One such function: insertion sort by decreasing score.\<close>

definition insertionSortDesc :: "Path list \<Rightarrow> Path list" where
  "insertionSortDesc = sort_key (\<lambda>p. - TotalScore p)"

definition PrunePaths :: "(Path list \<Rightarrow> Path list) \<Rightarrow> Path list \<Rightarrow> Path list" where
  "PrunePaths sortSlice candidates =
     (if length candidates = 0 then candidates
      else (let sorted = sortSlice candidates;
                bestScore = TotalScore (hd sorted)
            in pruneLoop bestScore sorted (\<lambda>_. False) []))"

text \<open>The expansion loops of \<^verbatim>\<open>Step\<close>: for every path and every pattern, in this order,
  the candidate path unless the emission score is below -50.\<close>

definition Step_candidates :: "BeamDecoder \<Rightarrow> real list \<Rightarrow> Path list" where
  "Step_candidates bd inputSignal =
     concat (map (\<lambda>prevPath.
       concat (map (\<lambda>pattern.
         (let emitScore = CalculateEmissionScore_Advanced inputSignal (Sequence pattern)
                            (currentStats bd)
          in if emitScore < - 50.0 then []
             else (let transScore = GetTransitionScore (lm bd) (LastChar prevPath) (Char' pattern);
                       newScore = TotalScore prevPath + emitScore + transScore
                   in [\<lparr>Sentence = Sentence prevPath @ Char' pattern,
                        LastChar = Char' pattern, TotalScore = newScore\<rparr>])))
         (patterns bd)))
       (paths bd))"

definition Step :: "(Path list \<Rightarrow> Path list) \<Rightarrow> BeamDecoder \<Rightarrow> real list \<Rightarrow> BeamDecoder" where
  "Step sortSlice bd inputSignal =
     (let candidates = Step_candidates bd inputSignal
      in if length candidates = 0 then bd
         else bd\<lparr>paths := PrunePaths sortSlice candidates\<rparr>)"

definition GetResult :: "BeamDecoder \<Rightarrow> string" where
  "GetResult bd = (if length (paths bd) = 0 then [] else Sentence (hd (paths bd)))"

definition InjectSpace :: "(Path list \<Rightarrow> Path list) \<Rightarrow> BeamDecoder \<Rightarrow> BeamDecoder" where
  "InjectSpace sortSlice bd =
     (let newPaths = map (\<lambda>p.
            if length (Sentence p) > 0 \<and> last (Sentence p) = CHR '' '' then p
            else if Sentence p = [] then p
            else (let transScore = GetTransitionScore (lm bd) (LastChar p) '' ''
                  in \<lparr>Sentence = Sentence p @ '' '', LastChar = '' '',
                      TotalScore = TotalScore p + transScore\<rparr>))
          (paths bd)
      in bd\<lparr>paths := PrunePaths sortSlice newPaths\<rparr>)"

text \<open>The language model with an empty table: every transition falls back to the
  word-start prior or to the default penalty.\<close>

definition emptyModel :: LanguageModel where
  "emptyModel = NewLanguageModel Map.empty"

section \<open>BeamDecoder: CWDecoder (src/BeamDecoder/Decoder.go)\<close>

text \<open>\<^verbatim>\<open>type SignalState int\<close> with the constants \<^verbatim>\<open>StateOn = 1\<close> and \<^verbatim>\<open>StateOff = 0\<close>.\<close>

type_synonym SignalState = int

definition StateOn :: SignalState where
  "StateOn = 1"

definition StateOff :: SignalState where
  "StateOff = 0"

record DecoderConfig =
  InitialWPM :: real
  GlitchThresholdMs :: real
  UpdateAlpha :: real

record CWDecoder =
  cfg :: DecoderConfig
  unitTime :: real
  pendingMarkDuration :: real
  lastGapDuration :: real
  charBuffer :: string
  statsAnalyzer :: StatisticalAnalyzer
  beamDecoder :: BeamDecoder
  pulseBuffer :: "real list"

definition NewCWDecoder :: "DecoderConfig \<Rightarrow> LanguageModel \<Rightarrow> CWDecoder" where
  "NewCWDecoder c m =
     \<lparr>cfg = c, unitTime = 1200.0 / InitialWPM c, pendingMarkDuration = 0,
      lastGapDuration = 0, charBuffer = [], statsAnalyzer = NewAnalyzer 10,
      beamDecoder = NewBeamDecoder m, pulseBuffer = []\<rparr>"

definition AddCode :: "CWDecoder \<Rightarrow> real \<Rightarrow> CWDecoder" where
  "AddCode d dur = d\<lparr>pulseBuffer := pulseBuffer d @ [dur / unitTime d]\<rparr>"

text \<open>\<^verbatim>\<open>delCode\<close>: the decoder without the last pulse, and that pulse in milliseconds. On an
  empty buffer the index -1 panics.\<close>

definition delCode :: "CWDecoder \<Rightarrow> (CWDecoder \<times> real) option" where
  "delCode d =
     (if length (pulseBuffer d) = 0 then None
      else (let lastIndex = length (pulseBuffer d) - 1;
                prevGap = pulseBuffer d ! lastIndex
            in Some (d\<lparr>pulseBuffer := take lastIndex (pulseBuffer d)\<rparr>, prevGap * unitTime d)))"

text \<open>\<^verbatim>\<open>getThreshold\<close>: the decoder with the observation added, the dot/dash threshold and
  the smoothing factor.\<close>

definition getThreshold :: "CWDecoder \<Rightarrow> real \<Rightarrow> (CWDecoder \<times> real \<times> real) option" where
  "getThreshold d dur =
     (case AddObservation (statsAnalyzer d) dur of
        None \<Rightarrow> None
      | Some sa \<Rightarrow>
          (let d1 = d\<lparr>statsAnalyzer := sa\<rparr>;
               stats = Analyze (statsAnalyzer d1);
               defaultThreshold = unitTime d1 * 2.2;
               baseAlpha = UpdateAlpha (cfg d1)
           in if Valid stats
              then (let threshold = OptimalThreshold stats;
                        alpha0 = baseAlpha * Confidence stats;
                        alpha1 = (if alpha0 < 0.05 then 0.05 else alpha0);
                        currentAlpha = (if alpha1 > 0.5 then 0.5 else alpha1)
                    in Some (d1, threshold, currentAlpha))
              else Some (d1, defaultThreshold, baseAlpha)))"

text \<open>The moving-average update of \<^verbatim>\<open>updateWPM1\<close>, with its outlier rejection, before the
  floor is applied.\<close>

definition emaUpdate :: "CWDecoder \<Rightarrow> real \<Rightarrow> real \<Rightarrow> real \<Rightarrow> CWDecoder" where
  "emaUpdate d dur threshold currentAlpha =
     (let sampleUnit = (if dur > threshold then dur / 3.0 else dur)
      in if sampleUnit > unitTime d * 0.5 \<and> sampleUnit < unitTime d * 1.5
         then d\<lparr>unitTime := currentAlpha * sampleUnit + (1.0 - currentAlpha) * unitTime d\<rparr>
         else d)"

definition updateWPM1 :: "CWDecoder \<Rightarrow> real \<Rightarrow> CWDecoder option" where
  "updateWPM1 d dur =
     (case getThreshold d dur of
        None \<Rightarrow> None
      | Some (d1, threshold, currentAlpha) \<Rightarrow>
          (let d2 = emaUpdate d1 dur threshold currentAlpha
           in Some (if unitTime d2 < 10.0 then d2\<lparr>unitTime := 60.0\<rparr> else d2)))"


text \<open>\<^verbatim>\<open>FeedNew\<close>, lines 86 to 113 (``settle the previous mark''): a pending mark longer
  than the glitch threshold updates the speed and is appended to the pulse buffer; a
  shorter one is noise, and its duration and the last buffered pulse are merged into the
  current gap.\<close>

definition settleMark :: "CWDecoder \<Rightarrow> CWDecoder option" where
  "settleMark d =
     (if pendingMarkDuration d > 0
      then (if pendingMarkDuration d > GlitchThresholdMs (cfg d)
            then (case updateWPM1 d (pendingMarkDuration d) of
                    None \<Rightarrow> None
                  | Some d' \<Rightarrow> Some (AddCode d' (pendingMarkDuration d')))
            else (let noiseDur = pendingMarkDuration d
                  in if length (pulseBuffer d) > 0
                     then (case delCode d of
                             None \<Rightarrow> None
                           | Some (d', prevGap) \<Rightarrow>
                               Some (d'\<lparr>lastGapDuration :=
                                           lastGapDuration d' + (prevGap + noiseDur)\<rparr>))
                     else Some (d\<lparr>lastGapDuration := lastGapDuration d + noiseDur\<rparr>)))
      else Some d)"

text \<open>\<^verbatim>\<open>FeedNew\<close>, lines 115 to 143 (``settle the previous gap'' and the third layer): a
  gap longer than 2.5 units hands the pulse buffer to the beam decoder and clears it
  (and a gap longer than 5 units injects a space); a shorter positive gap is appended to
  a non-empty buffer; then the incoming mark is staged.\<close>

definition settleGap :: "(Path list \<Rightarrow> Path list) \<Rightarrow> CWDecoder \<Rightarrow> real \<Rightarrow> CWDecoder" where
  "settleGap sortSlice d1 durationMs =
     (let d2 =
        (if lastGapDuration d1 > unitTime d1 * 2.5
         then (let d1a = (if length (pulseBuffer d1) > 0
                          then d1\<lparr>beamDecoder :=
                                    Step sortSlice (beamDecoder d1) (pulseBuffer d1),
                                  pulseBuffer := []\<rparr>
                          else d1)
               in if lastGapDuration d1a > unitTime d1a * 5.0
                  then d1a\<lparr>beamDecoder := InjectSpace sortSlice (beamDecoder d1a)\<rparr>
                  else d1a)
         else if lastGapDuration d1 > 0
         then (if length (pulseBuffer d1) > 0 then AddCode d1 (lastGapDuration d1) else d1)
         else d1)
      in d2\<lparr>pendingMarkDuration := durationMs, lastGapDuration := 0\<rparr>)"

text \<open>\<^verbatim>\<open>func (d *CWDecoder) FeedNew(durationMs float64, state SignalState) string\<close>: the
  new decoder and the returned string. Every state other than \<^verbatim>\<open>StateOff\<close> takes the
  mark branch, as in the source.\<close>

definition FeedNew ::
  "(Path list \<Rightarrow> Path list) \<Rightarrow> CWDecoder \<Rightarrow> real \<Rightarrow> SignalState \<Rightarrow> (CWDecoder \<times> string) option" where
  "FeedNew sortSlice d durationMs state =
     (if state = StateOff
      then Some (d\<lparr>lastGapDuration := lastGapDuration d + durationMs\<rparr>, [])
      else if lastGapDuration d > 0 \<and> lastGapDuration d < GlitchThresholdMs (cfg d)
      then Some (d\<lparr>pendingMarkDuration :=
                      pendingMarkDuration d + (lastGapDuration d + durationMs),
                    lastGapDuration := 0\<rparr>, [])
      else (case settleMark d of
              None \<Rightarrow> None
            | Some d1 \<Rightarrow>
                (let d3 = settleGap sortSlice d1 durationMs
                 in Some (d3, GetResult (beamDecoder d3)))))"

definition CheckTimeout :: "(Path list \<Rightarrow> Path list) \<Rightarrow> CWDecoder \<Rightarrow> CWDecoder \<times> string" where
  "CheckTimeout sortSlice d =
     (if pendingMarkDuration d > 0
      then (let d1 = AddCode d (pendingMarkDuration d);
                d2 = d1\<lparr>pendingMarkDuration := 0\<rparr>
            in if length (pulseBuffer d2) > 0
               then (let d3 = d2\<lparr>beamDecoder := Step sortSlice (beamDecoder d2) (pulseBuffer d2),
                                 pulseBuffer := []\<rparr>
                     in (d3, GetResult (beamDecoder d3)))
               else (d2, []))
      else (d, []))"

text \<open>A sequence of \<^verbatim>\<open>FeedNew\<close> calls, each event a pair (duration in ms, state).\<close>

fun FeedNew_run ::
  "(Path list \<Rightarrow> Path list) \<Rightarrow> CWDecoder \<Rightarrow> (real \<times> SignalState) list \<Rightarrow> CWDecoder option" where
  "FeedNew_run sortSlice d [] = Some d"
| "FeedNew_run sortSlice d ((dur, state) # evs) =
     (case FeedNew sortSlice d dur state of
        None \<Rightarrow> None
      | Some (d', out) \<Rightarrow> FeedNew_run sortSlice d' evs)"

text \<open>Two decoder configurations: the one of the repository's tests (20 WPM, glitch
  threshold 20 ms), with the smoothing factor 0.25 the source recommends, and a fast
  one (100 WPM, unit time 12 ms) with the largest smoothing factor.\<close>

definition testConfig :: DecoderConfig where
  "testConfig = \<lparr>InitialWPM = 20, GlitchThresholdMs = 20, UpdateAlpha = 0.25\<rparr>"


section \<open>Properties of the Schmitt trigger\<close>

lemma Feed_cases:
  "Feed st0 e =
    (let st = st0\<lparr>totalSamples := totalSamples st0 + 1,
                  thresholder := track (thresholder st0) e\<rparr>;
         raw = rawSignal st0 e
     in if raw = currentState st0 then (st\<lparr>pendingChange := False\<rparr>, None)
        else if \<not> pendingChange st0
        then (st\<lparr>pendingChange := True, changeStartSample := totalSamples st0 + 1\<rparr>, None)
        else if debounceCount st0 <s totalSamples st0 + 1 - changeStartSample st0
        then (st\<lparr>currentState := raw, stateStartSample := changeStartSample st0,
                 pendingChange := False\<rparr>,
              Some \<lparr>FinishedState = currentState st0,
                    DurationMs = (real_of_int (sint (changeStartSample st0 - stateStartSample st0))
                                  / sampleRate st0) * 1000\<rparr>)
        else (st, None))"
  by (simp add: Feed_def AdaptiveThresholder_Update_def rawSignal_def Let_def)

text \<open>
  C2. A call of \<^verbatim>\<open>Feed\<close> commits (returns an event, or changes the stable state) exactly
  when the raw decision differs from the stable state, a change is already pending, and
  the pending duration \<open>total_samples - change_start\<close>, taken after the increment of the
  sample counter, is strictly greater than \<open>debounce_count\<close>; with equality nothing is
  committed. The committed event carries the state that just ended and the duration
  computed from \<open>change_start - state_start_sample\<close>, and \<open>state_start_sample\<close> becomes
  \<open>change_start\<close>.
\<close>

theorem C2_debounce_commit:
  "((snd (Feed st envelope) \<noteq> None) =
      (rawSignal st envelope \<noteq> currentState st \<and> pendingChange st
       \<and> debounceCount st <s totalSamples st + 1 - changeStartSample st))
   \<and> ((currentState (fst (Feed st envelope)) \<noteq> currentState st) =
        (snd (Feed st envelope) \<noteq> None))
   \<and> (totalSamples st + 1 - changeStartSample st = debounceCount st
        \<longrightarrow> snd (Feed st envelope) = None)
   \<and> (snd (Feed st envelope) \<noteq> None \<longrightarrow>
        snd (Feed st envelope) =
          Some \<lparr>FinishedState = currentState st,
                DurationMs = (real_of_int (sint (changeStartSample st - stateStartSample st))
                              / sampleRate st) * 1000\<rparr>
        \<and> stateStartSample (fst (Feed st envelope)) = changeStartSample st
        \<and> currentState (fst (Feed st envelope)) = (\<not> currentState st)
        \<and> \<not> pendingChange (fst (Feed st envelope)))
   \<and> (snd (Feed st envelope) = None \<longrightarrow>
        stateStartSample (fst (Feed st envelope)) = stateStartSample st)"
  by (auto simp add: Feed_cases Let_def)

lemma minRange_track [simp]: "minRange (track th s) = minRange th"
  by (simp add: track_def Let_def)

lemma Feed_thresholdHigh [simp]: "thresholdHigh (fst (Feed st e)) = thresholdHigh st"
  by (simp add: Feed_cases Let_def)

lemma Feed_space_stays:
  assumes "\<not> currentState st" and "e \<le> thresholdHigh st"
  shows "snd (Feed st e) = None \<and> \<not> currentState (fst (Feed st e))"
  using assms by (simp add: Feed_cases rawSignal_def Let_def)

lemma Feed_event_from_mark:
  assumes "e \<le> thresholdHigh st" and "snd (Feed st e) = Some t"
  shows "FinishedState t \<and> \<not> currentState (fst (Feed st e))"
proof (cases "currentState st")
  case True
  with assms(2) show ?thesis
    by (auto simp add: Feed_cases Let_def split: if_splits)
next
  case False
  with assms show ?thesis using Feed_space_stays [of st e] by simp
qed

lemma FeedAll_no_mark:
  assumes "\<forall>e \<in> set es. e \<le> thresholdHigh st"
  shows "(\<forall>t \<in> set (snd (FeedAll st es)). FinishedState t)
         \<and> (\<not> currentState st \<longrightarrow>
              snd (FeedAll st es) = [] \<and> \<not> currentState (fst (FeedAll st es)))"
  using assms
proof (induction es arbitrary: st)
  case Nil
  then show ?case by simp
next
  case (Cons e es)
  obtain st' ev where f: "Feed st e = (st', ev)" by (cases "Feed st e")
  have hi: "thresholdHigh st' = thresholdHigh st"
    using Feed_thresholdHigh [of st e] f by simp
  have le: "e \<le> thresholdHigh st" using Cons.prems by simp
  have ih: "(\<forall>t \<in> set (snd (FeedAll st' es)). FinishedState t)
            \<and> (\<not> currentState st' \<longrightarrow>
                 snd (FeedAll st' es) = [] \<and> \<not> currentState (fst (FeedAll st' es)))"
    using Cons.IH [of st'] Cons.prems hi by simp
  have ev_ok: "\<And>t. ev = Some t \<Longrightarrow> FinishedState t"
    using Feed_event_from_mark [of e st] le f by simp
  have stay: "\<not> currentState st \<Longrightarrow> ev = None \<and> \<not> currentState st'"
    using Feed_space_stays [of st e] le f by simp
  show ?case
    using ih ev_ok stay f by (auto simp add: split_beta split: option.splits)
qed

text \<open>
  C8 (as amended). Whenever the tracked dynamic range \<open>max_level - min_level\<close> is below
  \<open>min_range\<close> after the update, \<^verbatim>\<open>Update\<close> returns the sentinel pair (10, 9). A Schmitt
  trigger whose high threshold is that sentinel (installed with \<^verbatim>\<open>SetThresholds\<close>)
  never commits a transition to mark on envelope samples that do not exceed 10: every
  event it emits ends a mark, and from space it emits nothing and stays in space.
\<close>

theorem C8_squelch_sentinel:
  "(maxLevel (track th sample) - minLevel (track th sample) < minRange th
      \<longrightarrow> snd (AdaptiveThresholder_Update th sample) = (10, 9))
   \<and> ((\<forall>e \<in> set es. e \<le> 10) \<longrightarrow>
        (\<forall>t \<in> set (snd (FeedAll (SetThresholds st 10 9) es)). FinishedState t)
        \<and> (\<not> currentState st \<longrightarrow>
             snd (FeedAll (SetThresholds st 10 9) es) = []
             \<and> \<not> currentState (fst (FeedAll (SetThresholds st 10 9) es))))"
proof -
  have a: "maxLevel (track th sample) - minLevel (track th sample) < minRange th
             \<longrightarrow> snd (AdaptiveThresholder_Update th sample) = (10, 9)"
    by (simp add: AdaptiveThresholder_Update_def Let_def)
  have b: "(\<forall>e \<in> set es. e \<le> 10) \<longrightarrow>
        (\<forall>t \<in> set (snd (FeedAll (SetThresholds st 10 9) es)). FinishedState t)
        \<and> (\<not> currentState st \<longrightarrow>
             snd (FeedAll (SetThresholds st 10 9) es) = []
             \<and> \<not> currentState (fst (FeedAll (SetThresholds st 10 9) es)))"
    using FeedAll_no_mark [of es "SetThresholds st 10 9"]
    by (simp add: SetThresholds_def)
  from a b show ?thesis by blast
qed

theorem C2_debounce_commit_witness:
  "snd (Feed (fst (Feed (NewSchmittTrigger 48000 0.5 0.4 0) 0.9)) 0.9) \<noteq> None
   \<and> snd (Feed (fst (Feed (NewSchmittTrigger 48000 0.5 0.4 0) 0.9)) 0.9) =
       Some \<lparr>FinishedState = False, DurationMs = (1 / 48000) * 1000\<rparr>
   \<and> stateStartSample (fst (Feed (fst (Feed (NewSchmittTrigger 48000 0.5 0.4 0) 0.9)) 0.9)) = 1"
  using C2_debounce_commit [of "fst (Feed (NewSchmittTrigger 48000 0.5 0.4 0) 0.9)" "0.9"]
  by (simp add: Feed_cases NewSchmittTrigger_def trunc_int64_def trunc_int_def rawSignal_def
      Let_def word_sless_alt)

theorem C8_squelch_sentinel_witness:
  "maxLevel (track (NewAdaptiveThresholder 0.9995 0.005) 0.004)
     - minLevel (track (NewAdaptiveThresholder 0.9995 0.005) 0.004)
     < minRange (NewAdaptiveThresholder 0.9995 0.005)
   \<and> snd (AdaptiveThresholder_Update (NewAdaptiveThresholder 0.9995 0.005) 0.004) = (10, 9)
   \<and> \<not> currentState (NewSchmittTrigger 48000 0.5 0.4 0)
   \<and> snd (FeedAll (SetThresholds (NewSchmittTrigger 48000 0.5 0.4 0) 10 9) [0.9, 0.9, 0.9]) = []"
proof -
  have h1: "maxLevel (track (NewAdaptiveThresholder 0.9995 0.005) 0.004)
     - minLevel (track (NewAdaptiveThresholder 0.9995 0.005) 0.004)
     < minRange (NewAdaptiveThresholder 0.9995 0.005)"
    by (simp add: track_def NewAdaptiveThresholder_def Let_def)
  have h2: "\<forall>e \<in> set [0.9, 0.9, 0.9 :: real]. e \<le> 10" by simp
  have h3: "\<not> currentState (NewSchmittTrigger 48000 0.5 0.4 0)"
    by (simp add: NewSchmittTrigger_def)
  show ?thesis
    using h1 h2 h3 C8_squelch_sentinel [of "NewAdaptiveThresholder 0.9995 0.005" "0.004"
      "[0.9, 0.9, 0.9]" "NewSchmittTrigger 48000 0.5 0.4 0"]
    by blast
qed

text \<open>
  C8 as stated fails on \<^verbatim>\<open>Feed\<close>: the trigger built by \<^verbatim>\<open>NewSchmittTrigger\<close> with
  thresholds 0.003 / 0.002 and no debounce is fed the envelope 0.004 twice. Its own
  thresholder answers the sentinel (10, 9) both times, and the second call commits the
  transition from space to mark, since \<^verbatim>\<open>Feed\<close> compares the envelope with the
  trigger's own thresholds.
\<close>

theorem C8_counterexample:
  "snd (AdaptiveThresholder_Update
          (thresholder (NewSchmittTrigger 48000 0.003 0.002 0)) 0.004) = (10, 9)
   \<and> snd (AdaptiveThresholder_Update
          (thresholder (fst (Feed (NewSchmittTrigger 48000 0.003 0.002 0) 0.004))) 0.004)
       = (10, 9)
   \<and> snd (Feed (fst (Feed (NewSchmittTrigger 48000 0.003 0.002 0) 0.004)) 0.004)
       = Some \<lparr>FinishedState = False, DurationMs = (1 / 48000) * 1000\<rparr>
   \<and> currentState (fst (Feed (fst (Feed (NewSchmittTrigger 48000 0.003 0.002 0) 0.004)) 0.004))"
  by (simp add: Feed_cases AdaptiveThresholder_Update_def track_def NewSchmittTrigger_def
      NewAdaptiveThresholder_def trunc_int64_def trunc_int_def rawSignal_def Let_def
      word_sless_alt)

section \<open>Properties of the AFC\<close>

lemma AFC_Update_target [simp]: "targetFreq (fst (AFC_Update s i q e)) = targetFreq s"
  by (simp add: AFC_Update_def updatePhaseInc_def Let_def)

lemma AFC_Update_bound:
  assumes "\<bar>CurrentFreq s - targetFreq s\<bar> \<le> 100"
  shows "\<bar>CurrentFreq (fst (AFC_Update s i q e)) - targetFreq s\<bar> \<le> 100"
  using assms by (simp add: AFC_Update_def updatePhaseInc_def Let_def) arith

lemma AFC_run_target [simp]: "targetFreq (AFC_run s xs) = targetFreq s"
  by (induction s xs rule: AFC_run.induct) simp_all

lemma AFC_run_bound:
  assumes "\<bar>CurrentFreq s - targetFreq s\<bar> \<le> 100"
  shows "\<bar>CurrentFreq (AFC_run s xs) - targetFreq s\<bar> \<le> 100"
  using assms
proof (induction s xs rule: AFC_run.induct)
  case (1 s)
  then show ?case by simp
next
  case (2 s i q e xs)
  have "\<bar>CurrentFreq (fst (AFC_Update s i q e)) - targetFreq (fst (AFC_Update s i q e))\<bar> \<le> 100"
    using AFC_Update_bound [OF "2.prems"] by simp
  from "2.IH" [OF this] show ?case by simp
qed

lemma AFC_run_snoc: "AFC_run s (xs @ [(i, q, e)]) = fst (AFC_Update (AFC_run s xs) i q e)"
  by (induction s xs rule: AFC_run.induct) simp_all

lemma aboveGateRun_snoc:
  "aboveGateRun (xs @ [(i, q, e)]) = (if e > 0.005 then Suc (aboveGateRun xs) else 0)"
  by (simp add: aboveGateRun_def)

lemma AFC_Update_counter:
  "signalConsecutive (fst (AFC_Update s i q e)) =
     (if e > 0.005 then signalConsecutive s + 1 else 0)"
  by (simp add: AFC_Update_def updatePhaseInc_def Let_def)

lemma AFC_run_counter:
  "signalConsecutive s = 0 \<Longrightarrow> signalConsecutive (AFC_run s xs) = word_of_nat (aboveGateRun xs)"
proof (induction xs rule: rev_induct)
  case Nil
  then show ?case by (simp add: aboveGateRun_def)
next
  case (snoc x xs)
  obtain i q e where x: "x = (i, q, e)" by (cases x)
  show ?case
    using snoc by (simp add: x AFC_run_snoc aboveGateRun_snoc AFC_Update_counter)
qed

lemma counter_gt5:
  assumes "5 <s (word_of_nat n :: 64 word)"
  shows "6 \<le> n"
proof (rule ccontr)
  assume "\<not> 6 \<le> n"
  then have "n \<in> {0, 1, 2, 3, 4, 5}" by auto
  then show False using assms by (auto simp add: word_sless_alt)
qed

lemma AFC_Update_changes:
  assumes "CurrentFreq (fst (AFC_Update s i q e)) \<noteq> CurrentFreq s"
  shows "e > 0.005 \<and> 5 <s signalConsecutive s \<and> \<bar>freqError s (Atan2 q i)\<bar> > 2"
  using assms by (auto simp add: AFC_Update_def updatePhaseInc_def Let_def split: if_splits)


lemma NewAFC_simps:
  "CurrentFreq (NewAFC sr tf) = tf" "targetFreq (NewAFC sr tf) = tf"
  "signalConsecutive (NewAFC sr tf) = 0"
  by (simp_all add: NewAFC_def updatePhaseInc_def)

text \<open>
  C6. Along every sequence of \<^verbatim>\<open>Update\<close> calls on the controller built by \<^verbatim>\<open>NewAFC\<close>, the
  current frequency stays within 100 Hz of the target frequency. A call changes the
  current frequency only if its envelope is above the gate 0.005, the six samples before
  it were all above the gate (the source tests \<^verbatim>\<open>signalConsecutive > 5\<close>, so at least
  five), and the frequency error derived from the phase exceeds 2 Hz in absolute value.
  A sample at or below the gate sets the counter of consecutive signal samples to 0.
\<close>

theorem C6_afc_tracking:
  "\<bar>CurrentFreq (AFC_run (NewAFC sr tf) xs) - tf\<bar> \<le> 100
   \<and> targetFreq (AFC_run (NewAFC sr tf) xs) = tf
   \<and> (CurrentFreq (fst (AFC_Update (AFC_run (NewAFC sr tf) xs) i q e))
         \<noteq> CurrentFreq (AFC_run (NewAFC sr tf) xs)
       \<longrightarrow> e > 0.005 \<and> 6 \<le> aboveGateRun xs
           \<and> \<bar>freqError (AFC_run (NewAFC sr tf) xs) (Atan2 q i)\<bar> > 2)
   \<and> (e \<le> 0.005 \<longrightarrow>
         signalConsecutive (fst (AFC_Update (AFC_run (NewAFC sr tf) xs) i q e)) = 0)"
proof -
  let ?s = "AFC_run (NewAFC sr tf) xs"
  have b: "\<bar>CurrentFreq ?s - tf\<bar> \<le> 100"
    using AFC_run_bound [of "NewAFC sr tf" xs] by (simp add: NewAFC_simps)
  have t: "targetFreq ?s = tf" by (simp add: NewAFC_simps)
  have c: "signalConsecutive ?s = word_of_nat (aboveGateRun xs)"
    by (rule AFC_run_counter) (simp add: NewAFC_simps)
  have ch: "CurrentFreq (fst (AFC_Update ?s i q e)) \<noteq> CurrentFreq ?s
       \<longrightarrow> e > 0.005 \<and> 6 \<le> aboveGateRun xs \<and> \<bar>freqError ?s (Atan2 q i)\<bar> > 2"
    using AFC_Update_changes [of ?s i q e] counter_gt5 [of "aboveGateRun xs"] c by auto
  have z: "e \<le> 0.005 \<longrightarrow> signalConsecutive (fst (AFC_Update ?s i q e)) = 0"
    by (simp add: AFC_Update_counter)
  from b t ch z show ?thesis by blast
qed

lemma run6:
  "AFC_run (NewAFC 48000 700) [(1, 0, 1), (1, 0, 1), (1, 0, 1), (1, 0, 1), (1, 0, 1), (1, 0, 1)]
   = (NewAFC 48000 700)\<lparr>signalConsecutive := 6\<rparr>"
  by (simp add: AFC_Update_def NewAFC_def updatePhaseInc_def Atan2_def Let_def word_sless_alt)

lemma upd7: "CurrentFreq (fst (AFC_Update ((NewAFC 48000 700)\<lparr>signalConsecutive := 6\<rparr>) 1 1 1)) = 701.2"
  by (simp add: AFC_Update_def NewAFC_def updatePhaseInc_def Atan2_def freqError_def Let_def word_sless_alt arctan_one)


theorem C6_afc_tracking_witness:
  "CurrentFreq (fst (AFC_Update (AFC_run (NewAFC 48000 700)
       [(1, 0, 1), (1, 0, 1), (1, 0, 1), (1, 0, 1), (1, 0, 1), (1, 0, 1)]) 1 1 1))
     \<noteq> CurrentFreq (AFC_run (NewAFC 48000 700)
       [(1, 0, 1), (1, 0, 1), (1, 0, 1), (1, 0, 1), (1, 0, 1), (1, 0, 1)])
   \<and> 6 \<le> aboveGateRun [(1, 0, 1), (1, 0, 1), (1, 0, 1), (1, 0, 1), (1, 0, 1), (1, 0, 1 :: real)]
   \<and> \<bar>freqError (AFC_run (NewAFC 48000 700)
       [(1, 0, 1), (1, 0, 1), (1, 0, 1), (1, 0, 1), (1, 0, 1), (1, 0, 1)]) (Atan2 1 1)\<bar> > 2
   \<and> (0.001 :: real) \<le> 0.005
   \<and> signalConsecutive (fst (AFC_Update (AFC_run (NewAFC 48000 700)
       [(1, 0, 1), (1, 0, 1), (1, 0, 1), (1, 0, 1), (1, 0, 1), (1, 0, 1)]) 1 1 0.001)) = 0"
proof -
  have h: "CurrentFreq (fst (AFC_Update (AFC_run (NewAFC 48000 700)
       [(1, 0, 1), (1, 0, 1), (1, 0, 1), (1, 0, 1), (1, 0, 1), (1, 0, 1)]) 1 1 1))
     \<noteq> CurrentFreq (AFC_run (NewAFC 48000 700)
       [(1, 0, 1), (1, 0, 1), (1, 0, 1), (1, 0, 1), (1, 0, 1), (1, 0, 1)])"
    unfolding run6 by (simp add: upd7 NewAFC_simps)
  have g: "(0.001 :: real) \<le> 0.005" by simp
  show ?thesis
    using h g
      C6_afc_tracking [of 48000 700
        "[(1, 0, 1), (1, 0, 1), (1, 0, 1), (1, 0, 1), (1, 0, 1), (1, 0, 1)]" 1 1 1]
      C6_afc_tracking [of 48000 700
        "[(1, 0, 1), (1, 0, 1), (1, 0, 1), (1, 0, 1), (1, 0, 1), (1, 0, 1)]" 1 1 "0.001"]
    by blast
qed

section \<open>Properties of the history optimizer\<close>

lemma trunc_tenth: "nat (trunc_int (real n * 0.10)) = n div 10"
proof -
  have "real n * 0.10 = real n / real 10" by simp
  then have "\<lfloor>real n * 0.10\<rfloor> = int (n div 10)"
    by (simp only: floor_divide_of_nat_eq)
  then show ?thesis by (simp add: trunc_int_def)
qed

lemma trunc_95: "nat (trunc_int (real n * 0.95)) = (n * 95) div 100"
proof -
  have "real n * 0.95 = real (n * 95) / real 100" by simp
  then have "\<lfloor>real n * 0.95\<rfloor> = int ((n * 95) div 100)"
    by (simp only: floor_divide_of_nat_eq)
  then show ?thesis by (simp add: trunc_int_def)
qed

lemma Push_head_ok:
  assumes "Push h v = Some h'" and "head h \<le> length (buffer h)"
  shows "head h' \<le> length (buffer h')"
proof -
  have m: "k < n \<Longrightarrow> Suc k mod n \<le> n" for k n :: nat
    using mod_less_divisor [of n "Suc k"] by simp
  show ?thesis
    using assms by (auto simp add: Push_def Let_def split: if_splits intro!: m)
qed

text \<open>
  C5 (as amended). For every history that holds at least one sample, with \<open>data\<close> the
  sorted available samples and \<open>n\<close> their number, \<^verbatim>\<open>SuggestThreshold\<close> returns
  (threshold, peak, noise) where noise is \<open>data[n div 10]\<close> (the 10th percentile), peak is
  \<open>data[95 n div 100]\<close> (the 95th percentile) and threshold is \<open>3 * noise\<close> when
  \<open>peak < 1.5 * noise\<close> and \<open>noise + 0.2 * (peak - noise)\<close> otherwise.
\<close>

theorem C5_suggest_threshold:
  assumes "available h \<noteq> []" and "isFull h \<or> head h \<le> length (buffer h)"
  shows "SuggestThreshold h =
           Some (if sort (available h) ! ((length (available h) * 95) div 100)
                    < 1.5 * sort (available h) ! (length (available h) div 10)
                 then 3 * sort (available h) ! (length (available h) div 10)
                 else sort (available h) ! (length (available h) div 10)
                      + 0.2 * (sort (available h) ! ((length (available h) * 95) div 100)
                               - sort (available h) ! (length (available h) div 10)),
                 sort (available h) ! ((length (available h) * 95) div 100),
                 sort (available h) ! (length (available h) div 10))"
proof -
  let ?n = "length (available h)"
  have n: "0 < ?n" using assms(1) by simp
  have i1: "?n div 10 < ?n" using n by simp
  have i2: "(?n * 95) div 100 < ?n" using n by arith
  have nh: "\<not> (\<not> isFull h \<and> head h = 0)"
    using assms(1) by (cases "isFull h") (auto simp add: available_def)
  have np: "\<not> (\<not> isFull h \<and> length (buffer h) < head h)"
    using assms(2) by auto
  have a: "(if isFull h then buffer h else take (head h) (buffer h)) = available h"
    by (simp add: available_def)
  show ?thesis
    unfolding SuggestThreshold_def Let_def a trunc_tenth trunc_95 length_sort
    using nh np i1 i2 by (auto simp add: mult.commute)
qed

theorem C5_suggest_threshold_witness:
  "available smallOptimizer \<noteq> []
   \<and> (isFull smallOptimizer \<or> head smallOptimizer \<le> length (buffer smallOptimizer))
   \<and> SuggestThreshold smallOptimizer = Some (0.26, 0.9, 0.1)"
proof -
  have a: "available smallOptimizer = [0.3, 0.1, 0.9, 0.2]"
    by (simp add: available_def smallOptimizer_def)
  have h1: "available smallOptimizer \<noteq> []" by (simp add: a)
  have h2: "isFull smallOptimizer \<or> head smallOptimizer \<le> length (buffer smallOptimizer)"
    by (simp add: smallOptimizer_def)
  show ?thesis
    using h1 h2 C5_suggest_threshold [OF h1 h2] by (simp add: a)
qed

text \<open>
  C5 as stated fails on the empty history: the optimizer just built for the decoder
  (30 seconds at 48 kHz) holds no sample, and \<^verbatim>\<open>SuggestThreshold\<close> returns the fixed
  triple (0.05, 0.1, 0), whose threshold is not \<open>noise + 0.2 * (peak - noise) = 0.02\<close>.
\<close>

theorem C5_counterexample:
  "NewHistoryOptimizer 30 48000 = Some freshOptimizer
   \<and> available freshOptimizer = []
   \<and> SuggestThreshold freshOptimizer = Some (0.05, 0.1, 0)
   \<and> (0.05 :: real) \<noteq> 0 + 0.2 * (0.1 - 0)"
  by (simp add: NewHistoryOptimizer_def freshOptimizer_def available_def SuggestThreshold_def
      trunc_int_def Let_def)

section \<open>Properties of the statistical analyzer\<close>

lemma fold_gap_inv:
  "fold (gapStep data) xs (g, k) = (g', k') \<Longrightarrow>
     (g' = g \<and> k' = k) \<or> (g < g' \<and> k' \<in> int ` set xs)"
proof (induction xs arbitrary: g k)
  case Nil
  then show ?case by simp
next
  case (Cons i xs)
  obtain g1 k1 where s: "gapStep data i (g, k) = (g1, k1)" by (cases "gapStep data i (g, k)")
  have s': "(g1 = g \<and> k1 = k) \<or> (g < g1 \<and> k1 = int i)"
    using s by (auto simp add: gapStep_def Let_def split: if_splits)
  from Cons.prems s have "fold (gapStep data) xs (g1, k1) = (g', k')" by simp
  from Cons.IH [OF this] have "(g' = g1 \<and> k' = k1) \<or> (g1 < g' \<and> k' \<in> int ` set xs)" .
  with s' show ?case by auto
qed

lemma findMaxGap_range:
  assumes "findMaxGap data a b = (g, k)" and "0 < g"
  shows "int a \<le> k \<and> k < int b"
proof -
  have "fold (gapStep data) [a..<b] (0, - 1) = (g, k)"
    using assms(1) by (simp add: findMaxGap_def)
  from fold_gap_inv [OF this] assms(2) have "k \<in> int ` set [a..<b]" by auto
  then show ?thesis by auto
qed

lemma fold_add_sum: "fold (\<lambda>v acc. acc + v) xs (a :: real) = a + sum_list xs"
  by (induction xs arbitrary: a) simp_all

lemma fold_sq_nonneg: "0 \<le> a \<Longrightarrow> 0 \<le> fold (\<lambda>v acc. acc + (v - m) ^ 2) xs (a :: real)"
  by (induction xs arbitrary: a) simp_all

lemma sum_list_pos_real:
  "xs \<noteq> [] \<Longrightarrow> \<forall>x \<in> set xs. 0 < x \<Longrightarrow> 0 < sum_list (xs :: real list)"
proof (induction xs)
  case Nil
  then show ?case by simp
next
  case (Cons x xs)
  then show ?case by (cases xs) (auto intro: add_pos_pos)
qed

lemma calculateStats_pos:
  assumes "xs \<noteq> []" and "\<forall>x \<in> set xs. 0 < x"
  shows "0 < Mean (calculateStats xs) \<and> 0 \<le> StdDev (calculateStats xs)"
proof -
  have m: "0 < sum_list xs / real (length xs)"
    using sum_list_pos_real [OF assms] assms(1) by simp
  have v: "0 \<le> fold (\<lambda>v acc. acc + (v - sum_list xs / real (length xs)) ^ 2) xs 0"
    by (rule fold_sq_nonneg) simp
  show ?thesis
    using m v assms(1) by (simp add: calculateStats_def Let_def fold_add_sum)
qed

lemma trunc_quarter: "nat (trunc_int (real n * 0.25)) = n div 4"
proof -
  have "real n * 0.25 = real n / real 4" by simp
  then have "\<lfloor>real n * 0.25\<rfloor> = int (n div 4)"
    by (simp only: floor_divide_of_nat_eq)
  then show ?thesis by (simp add: trunc_int_def)
qed

lemma trunc_three_quarters: "nat (trunc_int (real n * 0.75)) = (n * 3) div 4"
proof -
  have "real n * 0.75 = real (n * 3) / real 4" by simp
  then have "\<lfloor>real n * 0.75\<rfloor> = int ((n * 3) div 4)"
    by (simp only: floor_divide_of_nat_eq)
  then show ?thesis by (simp add: trunc_int_def)
qed

lemma trunc_quarter_nf: "nat (trunc_int (real n / 4)) = n div 4"
  using trunc_quarter [of n] by simp

lemma trunc_three_quarters_nf: "nat (trunc_int (real n * 3 / 4)) = (n * 3) div 4"
  using trunc_three_quarters [of n] by simp

lemma sortedWindow_ok:
  assumes "analyzer_ok s"
  shows "set (sortedWindow s) = set (history s) \<and> length (sortedWindow s) = windowSize s"
  using assms by (simp add: sortedWindow_def analyzer_ok_def)

lemma Analyze_valid:
  assumes "Valid (Analyze s)"
  obtains g k where "full s"
    and "findMaxGap (sortedWindow s) (windowSize s div 4) ((windowSize s * 3) div 4) = (g, k)"
    and "20 \<le> g"
    and "Analyze s =
          (let data = sortedWindow s;
               dits = take (nat (k + 1)) data;
               dahs = drop (nat (k + 1)) data;
               ditStats = calculateStats dits;
               dahStats = calculateStats dahs;
               c0 = 1 - (StdDev ditStats / Mean ditStats + StdDev dahStats / Mean dahStats) / 2
           in \<lparr>OptimalThreshold = (dits ! (length dits - 1) + dahs ! 0) / 2,
               DitStats = ditStats, DahStats = dahStats,
               Confidence = (if c0 < 0 then 0.1 else c0), Valid = True\<rparr>)"
proof -
  obtain g k where gk:
    "findMaxGap (sortedWindow s) (windowSize s div 4) ((windowSize s * 3) div 4) = (g, k)"
    by (cases "findMaxGap (sortedWindow s) (windowSize s div 4) ((windowSize s * 3) div 4)")
  have f: "full s" using assms by (auto simp add: Analyze_def invalidResult_def split: if_splits)
  have g20: "20 \<le> g"
    using assms f gk
    by (auto simp add: Analyze_def invalidResult_def Let_def trunc_quarter_nf trunc_three_quarters_nf
        split: if_splits)
  show thesis
    using that [OF f gk g20] f gk g20
    by (simp add: Analyze_def Let_def trunc_quarter_nf trunc_three_quarters_nf)
qed


lemma Analyze_stats_pos:
  assumes ok: "analyzer_ok s" and pos: "\<forall>x \<in> set (history s). 0 < x"
      and valid: "Valid (Analyze s)"
  shows "0 < Mean (DitStats (Analyze s)) \<and> 0 \<le> StdDev (DitStats (Analyze s))
         \<and> 0 < Mean (DahStats (Analyze s)) \<and> 0 \<le> StdDev (DahStats (Analyze s))"
proof -
  from valid obtain g k where f: "full s"
    and gk: "findMaxGap (sortedWindow s) (windowSize s div 4) ((windowSize s * 3) div 4) = (g, k)"
    and g20: "20 \<le> g"
    and A: "Analyze s =
          (let data = sortedWindow s;
               dits = take (nat (k + 1)) data;
               dahs = drop (nat (k + 1)) data;
               ditStats = calculateStats dits;
               dahStats = calculateStats dahs;
               c0 = 1 - (StdDev ditStats / Mean ditStats + StdDev dahStats / Mean dahStats) / 2
           in \<lparr>OptimalThreshold = (dits ! (length dits - 1) + dahs ! 0) / 2,
               DitStats = ditStats, DahStats = dahStats,
               Confidence = (if c0 < 0 then 0.1 else c0), Valid = True\<rparr>)"
    by (rule Analyze_valid)
  let ?data = "sortedWindow s"
  have len: "length ?data = windowSize s" and st: "set ?data = set (history s)"
    using sortedWindow_ok [OF ok] by simp_all
  have rng: "int (windowSize s div 4) \<le> k \<and> k < int ((windowSize s * 3) div 4)"
    using findMaxGap_range [OF gk] g20 by simp
  then have k0: "0 \<le> k" and k1: "nat (k + 1) < windowSize s" by linarith+
  have dits: "take (nat (k + 1)) ?data \<noteq> []" using k0 k1 len by auto
  have dahs: "drop (nat (k + 1)) ?data \<noteq> []" using k1 len by auto
  have pd: "\<forall>x \<in> set (take (nat (k + 1)) ?data). 0 < x"
    using pos st by (auto dest: in_set_takeD)
  have ph: "\<forall>x \<in> set (drop (nat (k + 1)) ?data). 0 < x"
    using pos st by (auto dest: in_set_dropD)
  show ?thesis
    using calculateStats_pos [OF dits pd] calculateStats_pos [OF dahs ph]
    by (simp add: A Let_def)
qed

lemma Analyze_confidence:
  assumes "Valid (Analyze s)"
  shows "Confidence (Analyze s) =
           (if 1 - avgCV (Analyze s) < 0 then 0.1 else 1 - avgCV (Analyze s))"
proof -
  from assms obtain g k where A: "Analyze s =
          (let data = sortedWindow s;
               dits = take (nat (k + 1)) data;
               dahs = drop (nat (k + 1)) data;
               ditStats = calculateStats dits;
               dahStats = calculateStats dahs;
               c0 = 1 - (StdDev ditStats / Mean ditStats + StdDev dahStats / Mean dahStats) / 2
           in \<lparr>OptimalThreshold = (dits ! (length dits - 1) + dahs ! 0) / 2,
               DitStats = ditStats, DahStats = dahStats,
               Confidence = (if c0 < 0 then 0.1 else c0), Valid = True\<rparr>)"
    by (rule Analyze_valid)
  show ?thesis
    by (simp add: A Let_def avgCV_def)
qed



lemma sk_sorted: "sortedWindow skewedAnalyzer = [50, 50, 50, 50, 50, 100, 100, 100, 100, 9600]"
  by (simp add: sortedWindow_def skewedAnalyzer_def)

lemma sk_gap: "findMaxGap [50, 50, 50, 50, 50, 100, 100, 100, 100, 9600] 2 7 = (50, 4)"
  by (simp add: findMaxGap_def gapStep_def upt_rec Let_def)

lemma sqrt_sk: "sqrt 14440000 = 3800"
  by (rule real_sqrt_unique) simp_all

lemma sk_dits: "calculateStats [50, 50, 50, 50, 50] = \<lparr>Mean = 50, StdDev = 0, Count = 5\<rparr>"
  by (simp add: calculateStats_def Let_def)

lemma sk_dahs: "calculateStats [100, 100, 100, 100, 9600] = \<lparr>Mean = 2000, StdDev = 3800, Count = 5\<rparr>"
  by (simp add: calculateStats_def Let_def sqrt_sk)

lemma skewed_analyze:
  "Valid (Analyze skewedAnalyzer) \<and> Confidence (Analyze skewedAnalyzer) = 0.05
   \<and> avgCV (Analyze skewedAnalyzer) = 0.95"
proof -
  have ws: "windowSize skewedAnalyzer = 10" "full skewedAnalyzer"
    by (simp_all add: skewedAnalyzer_def)
  show ?thesis
    unfolding Analyze_def Let_def trunc_quarter trunc_three_quarters sk_sorted avgCV_def
    by (simp add: ws sk_gap sk_dits sk_dahs)
qed

lemma ny_sorted: "sortedWindow noisyAnalyzer = [1, 1, 1, 1, 96, 200, 200, 200, 200, 1200]"
  by (simp add: sortedWindow_def noisyAnalyzer_def)

lemma ny_gap: "findMaxGap [1, 1, 1, 1, 96, 200, 200, 200, 200, 1200] 2 7 = (104, 4)"
  by (simp add: findMaxGap_def gapStep_def upt_rec Let_def)

lemma sqrt_ny1: "sqrt 1444 = 38"
  by (rule real_sqrt_unique) simp_all

lemma sqrt_ny2: "sqrt 160000 = 400"
  by (rule real_sqrt_unique) simp_all

lemma ny_dits: "calculateStats [1, 1, 1, 1, 96] = \<lparr>Mean = 20, StdDev = 38, Count = 5\<rparr>"
  by (simp add: calculateStats_def Let_def sqrt_ny1)

lemma ny_dahs: "calculateStats [200, 200, 200, 200, 1200] = \<lparr>Mean = 400, StdDev = 400, Count = 5\<rparr>"
  by (simp add: calculateStats_def Let_def sqrt_ny2)

lemma noisy_analyze:
  "Valid (Analyze noisyAnalyzer) \<and> Confidence (Analyze noisyAnalyzer) = 0.1
   \<and> avgCV (Analyze noisyAnalyzer) = 1.45"
proof -
  have ws: "windowSize noisyAnalyzer = 10" "full noisyAnalyzer"
    by (simp_all add: noisyAnalyzer_def)
  show ?thesis
    unfolding Analyze_def Let_def trunc_quarter trunc_three_quarters ny_sorted avgCV_def
    by (simp add: ws ny_gap ny_dits ny_dahs)
qed

lemma rep10: "replicate 10 (0::real) = [0, 0, 0, 0, 0, 0, 0, 0, 0, 0]"
  by (simp add: numeral_eq_Suc)

lemma step_obs:
  "c < length h \<Longrightarrow> AddObservation \<lparr>windowSize = 10, history = h, cursor = c, full = f\<rparr> d
     = Some \<lparr>windowSize = 10, history = h[c := d], cursor = Suc c mod 10,
             full = (if Suc c mod 10 = 0 then True else f)\<rparr>"
  by (simp add: AddObservation_def Let_def)

lemma skewed_reachable: "AddObservations (NewAnalyzer 10) [50, 100, 50, 100, 50, 100, 50, 100, 50, 9600]
   = Some skewedAnalyzer"
  unfolding NewAnalyzer_def rep10
  by (simp add: step_obs skewedAnalyzer_def)

lemma noisy_reachable: "AddObservations (NewAnalyzer 10) [1, 200, 1, 200, 1, 200, 1, 200, 96, 1200]
   = Some noisyAnalyzer"
  unfolding NewAnalyzer_def rep10
  by (simp add: step_obs noisyAnalyzer_def)

text \<open>
  C9. The claim (confidence is 1 minus the average coefficient of variation, never below
  0.1) is what \<^verbatim>\<open>Analyze\<close> attempts and misses: the source writes
  \<^verbatim>\<open>if confidence < 0 { confidence = 0.1 }\<close>, so the floor value 0.1 is applied only to
  negative values. On the window \<^const>\<open>skewedAnalyzer\<close>, which ten calls of
  \<^verbatim>\<open>AddObservation\<close> on \<^verbatim>\<open>NewAnalyzer(10)\<close> produce, the result is valid, the average
  coefficient of variation is 0.95 and the returned confidence is 0.05, below 0.1. On
  the more dispersed window \<^const>\<open>noisyAnalyzer\<close> (average coefficient of variation
  1.45) the returned confidence is 0.1, which is higher, against the source's own
  comment that a smaller coefficient of variation means a higher confidence.
\<close>

theorem C9_confidence_floor_missed:
  "AddObservations (NewAnalyzer 10) [50, 100, 50, 100, 50, 100, 50, 100, 50, 9600]
     = Some skewedAnalyzer
   \<and> Valid (Analyze skewedAnalyzer)
   \<and> avgCV (Analyze skewedAnalyzer) = 0.95
   \<and> Confidence (Analyze skewedAnalyzer) = 0.05
   \<and> Confidence (Analyze skewedAnalyzer) < 0.1
   \<and> AddObservations (NewAnalyzer 10) [1, 200, 1, 200, 1, 200, 1, 200, 96, 1200]
     = Some noisyAnalyzer
   \<and> Valid (Analyze noisyAnalyzer)
   \<and> avgCV (Analyze noisyAnalyzer) = 1.45
   \<and> Confidence (Analyze noisyAnalyzer) = 0.1"
  using skewed_reachable skewed_analyze noisy_reachable noisy_analyze by simp

section \<open>Properties of the beam decoder\<close>

lemma insertionSortDesc_sorts: "sortsDescending insertionSortDesc"
  unfolding sortsDescending_def insertionSortDesc_def
proof (intro allI conjI)
  fix xs :: "Path list"
  show "mset (sort_key (\<lambda>p. - TotalScore p) xs) = mset xs" by simp
  have "sorted (map (\<lambda>p. - TotalScore p) (sort_key (\<lambda>p. - TotalScore p) xs))"
    by (rule sorted_sort_key)
  then show "sorted_wrt (\<lambda>a b. TotalScore a \<ge> TotalScore b) (sort_key (\<lambda>p. - TotalScore p) xs)"
    by (simp add: sorted_map)
qed

lemma pruneLoop_cases:
  obtains (stop) "pruneLoop b (p # ps) seen surv = surv"
  | (skip) "pruneLoop b (p # ps) seen surv = pruneLoop b ps seen surv"
  | (keep) "length surv < MaxBeamWidth" "b - PruneThreshold \<le> TotalScore p"
           "\<not> seen (LastChar p)"
           "pruneLoop b (p # ps) seen surv
              = pruneLoop b ps (seen(LastChar p := True)) (surv @ [p])"
  by (cases "length surv \<ge> MaxBeamWidth"; cases "TotalScore p < b - PruneThreshold";
      cases "seen (LastChar p)") auto

declare pruneLoop.simps(2) [simp del]

lemma pruneLoop_extends: "\<exists>ys. pruneLoop b cs seen surv = surv @ ys"
proof (induction cs arbitrary: seen surv)
  case Nil
  then show ?case by simp
next
  case (Cons p ps)
  show ?case
  proof (cases rule: pruneLoop_cases [of b p ps seen surv])
    case stop
    then show ?thesis by simp
  next
    case skip
    then show ?thesis using Cons.IH [of seen surv] by simp
  next
    case keep
    obtain zs where "pruneLoop b ps (seen(LastChar p := True)) (surv @ [p]) = (surv @ [p]) @ zs"
      using Cons.IH by blast
    then show ?thesis using keep(4) by simp
  qed
qed

lemma pruneLoop_length:
  "length surv \<le> MaxBeamWidth \<Longrightarrow> length (pruneLoop b cs seen surv) \<le> MaxBeamWidth"
proof (induction cs arbitrary: seen surv)
  case Nil
  then show ?case by simp
next
  case (Cons p ps)
  show ?case
  proof (cases rule: pruneLoop_cases [of b p ps seen surv])
    case stop
    then show ?thesis using Cons.prems by simp
  next
    case skip
    then show ?thesis using Cons.IH [OF Cons.prems] by simp
  next
    case keep
    have "length (surv @ [p]) \<le> MaxBeamWidth" using keep(1) by simp
    from Cons.IH [OF this] show ?thesis using keep(4) by simp
  qed
qed

lemma pruneLoop_scores:
  "\<forall>p \<in> set surv. b - PruneThreshold \<le> TotalScore p \<Longrightarrow>
   \<forall>p \<in> set (pruneLoop b cs seen surv). b - PruneThreshold \<le> TotalScore p"
proof (induction cs arbitrary: seen surv)
  case Nil
  then show ?case by simp
next
  case (Cons p ps)
  show ?case
  proof (cases rule: pruneLoop_cases [of b p ps seen surv])
    case stop
    then show ?thesis using Cons.prems by simp
  next
    case skip
    then show ?thesis using Cons.IH [OF Cons.prems] by simp
  next
    case keep
    have "\<forall>q \<in> set (surv @ [p]). b - PruneThreshold \<le> TotalScore q"
      using keep(2) Cons.prems by simp
    from Cons.IH [OF this] show ?thesis using keep(4) by simp
  qed
qed

lemma pruneLoop_subset:
  "set (pruneLoop b cs seen surv) \<subseteq> set surv \<union> set cs"
proof (induction cs arbitrary: seen surv)
  case Nil
  then show ?case by simp
next
  case (Cons p ps)
  show ?case
  proof (cases rule: pruneLoop_cases [of b p ps seen surv])
    case stop
    then show ?thesis by auto
  next
    case skip
    then show ?thesis using Cons.IH [of seen surv] by auto
  next
    case keep
    have "set (pruneLoop b ps (seen(LastChar p := True)) (surv @ [p]))
            \<subseteq> set (surv @ [p]) \<union> set ps"
      by (rule Cons.IH)
    then show ?thesis unfolding keep(4) by auto
  qed
qed

lemma pruneLoop_distinct:
  "distinct (map LastChar surv) \<Longrightarrow> \<forall>p \<in> set surv. seen (LastChar p) \<Longrightarrow>
   distinct (map LastChar (pruneLoop b cs seen surv))"
proof (induction cs arbitrary: seen surv)
  case Nil
  then show ?case by simp
next
  case (Cons p ps)
  show ?case
  proof (cases rule: pruneLoop_cases [of b p ps seen surv])
    case stop
    then show ?thesis using Cons.prems by simp
  next
    case skip
    then show ?thesis using Cons.IH [OF Cons.prems] by simp
  next
    case keep
    have d: "distinct (map LastChar (surv @ [p]))"
      using Cons.prems keep(3) by auto
    have s: "\<forall>q \<in> set (surv @ [p]). (seen(LastChar p := True)) (LastChar q)"
      using Cons.prems by auto
    show ?thesis unfolding keep(4) by (rule Cons.IH [OF d s])
  qed
qed

lemma pruneLoop_sorted:
  "sorted_wrt R (surv @ cs) \<Longrightarrow> sorted_wrt R (pruneLoop b cs seen surv)"
proof (induction cs arbitrary: seen surv)
  case Nil
  then show ?case by simp
next
  case (Cons p ps)
  have a: "sorted_wrt R surv" using Cons.prems by (simp add: sorted_wrt_append)
  have s: "sorted_wrt R (surv @ ps)" using Cons.prems by (auto simp add: sorted_wrt_append)
  have c: "sorted_wrt R ((surv @ [p]) @ ps)" using Cons.prems by simp
  show ?case
  proof (cases rule: pruneLoop_cases [of b p ps seen surv])
    case stop
    then show ?thesis using a by simp
  next
    case skip
    then show ?thesis using Cons.IH [OF s] by simp
  next
    case keep
    then show ?thesis using Cons.IH [OF c] by simp
  qed
qed

lemma pruneLoop_first:
  "pruneLoop (TotalScore p) (p # ps) (\<lambda>_. False) [] \<noteq> []
   \<and> hd (pruneLoop (TotalScore p) (p # ps) (\<lambda>_. False) []) = p"
proof -
  obtain ys where y: "pruneLoop (TotalScore p) ps ((\<lambda>_. False)(LastChar p := True)) ([] @ [p])
                   = ([] @ [p]) @ ys"
    using pruneLoop_extends by blast
  have "pruneLoop (TotalScore p) (p # ps) (\<lambda>_. False) []
        = pruneLoop (TotalScore p) ps ((\<lambda>_. False)(LastChar p := True)) ([] @ [p])"
    by (simp add: pruneLoop.simps(2) MaxBeamWidth_def PruneThreshold_def)
  then show ?thesis using y by simp
qed

lemma sorted_hd_max:
  assumes "sorted_wrt (\<lambda>a b. TotalScore a \<ge> TotalScore b) xs" and "c \<in> set xs"
  shows "TotalScore c \<le> TotalScore (hd xs)"
  using assms by (cases xs) auto

lemma PrunePaths_props:
  assumes srt: "sortsDescending sortSlice" and ne: "candidates \<noteq> []"
  shows "sorted_wrt (\<lambda>a b. TotalScore a \<ge> TotalScore b) (PrunePaths sortSlice candidates)"
    and "length (PrunePaths sortSlice candidates) \<le> MaxBeamWidth"
    and "PrunePaths sortSlice candidates \<noteq> []"
    and "\<forall>c \<in> set candidates. TotalScore c \<le> TotalScore (hd (PrunePaths sortSlice candidates))"
    and "\<forall>p \<in> set (PrunePaths sortSlice candidates).
           TotalScore (hd (PrunePaths sortSlice candidates)) - 10 \<le> TotalScore p"
    and "distinct (map LastChar (PrunePaths sortSlice candidates))"
    and "set (PrunePaths sortSlice candidates) \<subseteq> set candidates"
proof -
  let ?s = "sortSlice candidates"
  have ms: "mset ?s = mset candidates"
    and so: "sorted_wrt (\<lambda>a b. TotalScore a \<ge> TotalScore b) ?s"
    using srt by (simp_all add: sortsDescending_def)
  have st: "set ?s = set candidates" using ms by (metis set_mset_mset)
  have sne: "?s \<noteq> []" using ms ne by (metis mset_zero_iff)
  then obtain p ps where s: "?s = p # ps" by (cases ?s) auto
  have P: "PrunePaths sortSlice candidates = pruneLoop (TotalScore p) (p # ps) (\<lambda>_. False) []"
    using ne s by (simp add: PrunePaths_def Let_def)
  have f: "PrunePaths sortSlice candidates \<noteq> [] \<and> hd (PrunePaths sortSlice candidates) = p"
    unfolding P by (rule pruneLoop_first)
  have "sorted_wrt (\<lambda>a b. TotalScore a \<ge> TotalScore b) ([] @ (p # ps))"
    using so s by simp
  from pruneLoop_sorted [OF this]
  show "sorted_wrt (\<lambda>a b. TotalScore a \<ge> TotalScore b) (PrunePaths sortSlice candidates)"
    unfolding P .
  show "length (PrunePaths sortSlice candidates) \<le> MaxBeamWidth"
    unfolding P by (rule pruneLoop_length) simp
  show "PrunePaths sortSlice candidates \<noteq> []" using f by simp
  have "hd ?s = p" using s by simp
  then show "\<forall>c \<in> set candidates. TotalScore c \<le> TotalScore (hd (PrunePaths sortSlice candidates))"
    using sorted_hd_max [OF so] st f by auto
  have "\<forall>q \<in> set (pruneLoop (TotalScore p) (p # ps) (\<lambda>_. False) []).
          TotalScore p - PruneThreshold \<le> TotalScore q"
    by (rule pruneLoop_scores) simp
  then show "\<forall>p \<in> set (PrunePaths sortSlice candidates).
           TotalScore (hd (PrunePaths sortSlice candidates)) - 10 \<le> TotalScore p"
    using f P by (simp add: PruneThreshold_def)
  show "distinct (map LastChar (PrunePaths sortSlice candidates))"
    unfolding P by (rule pruneLoop_distinct) simp_all
  have "set (pruneLoop (TotalScore p) (p # ps) (\<lambda>_. False) []) \<subseteq> set [] \<union> set (p # ps)"
    by (rule pruneLoop_subset)
  then show "set (PrunePaths sortSlice candidates) \<subseteq> set candidates"
    unfolding P using st s by simp
qed

text \<open>
  C3. After every \<^verbatim>\<open>Step\<close> call that produces at least one candidate, the surviving paths
  are not empty and in non-increasing order of \<^verbatim>\<open>TotalScore\<close>, there are at most 20 of
  them (the constant \<^verbatim>\<open>MaxBeamWidth\<close>; the field \<^verbatim>\<open>beamWidth\<close> is not read), the first
  of them has the highest score of all candidates, every kept path has a score within
  10.0 of it, no two kept paths have the same \<^verbatim>\<open>LastChar\<close>, and every kept path is one of
  the candidates. This holds whatever order \<^verbatim>\<open>sort.Slice\<close> gives to equal scores.
\<close>

theorem C3_beam_prune:
  assumes "sortsDescending sortSlice" and "Step_candidates bd inputSignal \<noteq> []"
  shows "paths (Step sortSlice bd inputSignal) \<noteq> []
     \<and> sorted_wrt (\<lambda>a b. TotalScore a \<ge> TotalScore b) (paths (Step sortSlice bd inputSignal))
     \<and> length (paths (Step sortSlice bd inputSignal)) \<le> 20
     \<and> (\<forall>c \<in> set (Step_candidates bd inputSignal).
           TotalScore c \<le> TotalScore (hd (paths (Step sortSlice bd inputSignal))))
     \<and> (\<forall>p \<in> set (paths (Step sortSlice bd inputSignal)).
           TotalScore (hd (paths (Step sortSlice bd inputSignal))) - 10 \<le> TotalScore p)
     \<and> distinct (map LastChar (paths (Step sortSlice bd inputSignal)))
     \<and> set (paths (Step sortSlice bd inputSignal)) \<subseteq> set (Step_candidates bd inputSignal)"
proof -
  have S: "paths (Step sortSlice bd inputSignal)
           = PrunePaths sortSlice (Step_candidates bd inputSignal)"
    using assms(2) by (simp add: Step_def Let_def)
  show ?thesis
    unfolding S
    using PrunePaths_props [OF assms] by (simp add: MaxBeamWidth_def)
qed

lemma stats_new: "currentStats (NewBeamDecoder m) = defaultStats"
  by (simp add: currentStats_def NewBeamDecoder_def NewAnalyzer_def Analyze_def invalidResult_def Let_def)

lemma emit_E: "CalculateEmissionScore_Advanced [1] [1] defaultStats = 0"
  by (simp add: CalculateEmissionScore_Advanced_def termScore_def defaultStats_def zeroStats_def Let_def)

lemma Step_candidates_mem:
  assumes "prevPath \<in> set (paths bd)" and "pattern \<in> set (patterns bd)"
      and "\<not> CalculateEmissionScore_Advanced inputSignal (Sequence pattern) (currentStats bd) < - 50"
  shows "\<lparr>Sentence = Sentence prevPath @ Char' pattern, LastChar = Char' pattern,
          TotalScore = TotalScore prevPath
            + CalculateEmissionScore_Advanced inputSignal (Sequence pattern) (currentStats bd)
            + GetTransitionScore (lm bd) (LastChar prevPath) (Char' pattern)\<rparr>
         \<in> set (Step_candidates bd inputSignal)"
  unfolding Step_candidates_def set_concat set_map
  apply (rule UN_I [OF imageI [OF assms(1)]])
  unfolding set_concat set_map
  apply (rule UN_I [OF imageI [OF assms(2)]])
  using assms(3) apply (simp add: Let_def)
  done

lemma cand_E:
  "\<lparr>Sentence = ''E'', LastChar = ''E'', TotalScore = ln 0.05\<rparr>
     \<in> set (Step_candidates (NewBeamDecoder emptyModel) [1])"
proof -
  have p: "\<lparr>Char' = ''E'', Sequence = [1]\<rparr> \<in> set (patterns (NewBeamDecoder emptyModel))"
    by (simp add: NewBeamDecoder_def Patterns_def)
  have q: "\<lparr>Sentence = [], LastChar = [], TotalScore = 0\<rparr> \<in> set (paths (NewBeamDecoder emptyModel))"
    by (simp add: NewBeamDecoder_def)
  have t: "GetTransitionScore (lm (NewBeamDecoder emptyModel)) [] ''E'' = ln 0.05"
    by (simp add: GetTransitionScore_def NewBeamDecoder_def emptyModel_def NewLanguageModel_def)
  have e: "\<not> CalculateEmissionScore_Advanced [1]
               (Sequence \<lparr>Char' = ''E'', Sequence = [1]\<rparr>)
               (currentStats (NewBeamDecoder emptyModel)) < - 50"
    by (simp add: stats_new emit_E)
  show ?thesis
    using Step_candidates_mem [OF q p e] by (simp add: stats_new emit_E t)
qed

theorem C3_beam_prune_witness:
  "Step_candidates (NewBeamDecoder emptyModel) [1] \<noteq> []
   \<and> paths (Step insertionSortDesc (NewBeamDecoder emptyModel) [1]) \<noteq> []
   \<and> length (paths (Step insertionSortDesc (NewBeamDecoder emptyModel) [1])) \<le> 20
   \<and> distinct (map LastChar (paths (Step insertionSortDesc (NewBeamDecoder emptyModel) [1])))
   \<and> ln 0.05 \<le> TotalScore (hd (paths (Step insertionSortDesc (NewBeamDecoder emptyModel) [1])))"
proof -
  have h: "Step_candidates (NewBeamDecoder emptyModel) [1] \<noteq> []"
    using cand_E by auto
  show ?thesis
    using h cand_E
      C3_beam_prune [OF insertionSortDesc_sorts h]
    by fastforce
qed

lemma Step_candidates_none:
  assumes "\<forall>pattern \<in> set (patterns bd).
             CalculateEmissionScore_Advanced inputSignal (Sequence pattern) (currentStats bd) < - 50"
  shows "Step_candidates bd inputSignal = []"
  using assms by (simp add: Step_candidates_def Let_def)

text \<open>
  C4. If every pattern's emission score for the input pulse vector is below -50, no
  candidate path is generated; and whenever no candidate is generated, \<^verbatim>\<open>Step\<close> returns
  the decoder unchanged (paths, analyzer, model and patterns), so the best sentence read
  by \<^verbatim>\<open>GetResult\<close> is the one before the call.
\<close>

theorem C4_no_candidates:
  "((\<forall>pattern \<in> set (patterns bd).
        CalculateEmissionScore_Advanced inputSignal (Sequence pattern) (currentStats bd) < - 50)
      \<longrightarrow> Step_candidates bd inputSignal = [])
   \<and> (Step_candidates bd inputSignal = []
      \<longrightarrow> Step sortSlice bd inputSignal = bd
          \<and> GetResult (Step sortSlice bd inputSignal) = GetResult bd)"
  using Step_candidates_none [of bd inputSignal] by (simp add: Step_def Let_def)

lemma noise_scores:
  "\<forall>pattern \<in> set (patterns (NewBeamDecoder emptyModel)).
     CalculateEmissionScore_Advanced [100] (Sequence pattern)
       (currentStats (NewBeamDecoder emptyModel)) < - 50"
  unfolding stats_new
  by (simp add: NewBeamDecoder_def Patterns_def CalculateEmissionScore_Advanced_def
      termScore_def defaultStats_def zeroStats_def Let_def)

theorem C4_no_candidates_witness:
  "Step_candidates (NewBeamDecoder emptyModel) [100] = []
   \<and> Step insertionSortDesc (NewBeamDecoder emptyModel) [100] = NewBeamDecoder emptyModel
   \<and> GetResult (Step insertionSortDesc (NewBeamDecoder emptyModel) [100])
       = GetResult (NewBeamDecoder emptyModel)"
  using noise_scores C4_no_candidates [of "NewBeamDecoder emptyModel" "[100]" insertionSortDesc]
  by blast

section \<open>Properties of the symbol buffer\<close>

lemma AddObservation_ok:
  assumes "analyzer_ok s"
  shows "\<exists>s'. AddObservation s v = Some s' \<and> analyzer_ok s'"
proof -
  have w: "0 < windowSize s" and c: "cursor s < length (history s)"
    using assms by (auto simp add: analyzer_ok_def)
  have m: "(cursor s + 1) mod windowSize s < windowSize s"
    using w by simp
  show ?thesis
    using assms w c m by (auto simp add: AddObservation_def analyzer_ok_def Let_def)
qed

lemma getThreshold_ok:
  assumes "analyzer_ok (statsAnalyzer d)"
  shows "\<exists>d1 th a. getThreshold d dur = Some (d1, th, a) \<and> analyzer_ok (statsAnalyzer d1)
           \<and> unitTime d1 = unitTime d \<and> pulseBuffer d1 = pulseBuffer d
           \<and> pendingMarkDuration d1 = pendingMarkDuration d
           \<and> lastGapDuration d1 = lastGapDuration d \<and> cfg d1 = cfg d
           \<and> beamDecoder d1 = beamDecoder d"
proof -
  obtain sa where sa: "AddObservation (statsAnalyzer d) dur = Some sa" "analyzer_ok sa"
    using AddObservation_ok [OF assms] by blast
  have "getThreshold d dur =
          Some (d\<lparr>statsAnalyzer := sa\<rparr>, fst (snd (the (getThreshold d dur))),
                snd (snd (the (getThreshold d dur))))"
    by (cases "Valid (Analyze sa)") (simp_all add: getThreshold_def sa Let_def)
  then obtain th a where "getThreshold d dur = Some (d\<lparr>statsAnalyzer := sa\<rparr>, th, a)"
    by blast
  then have "getThreshold d dur = Some (d\<lparr>statsAnalyzer := sa\<rparr>, th, a)
           \<and> analyzer_ok (statsAnalyzer (d\<lparr>statsAnalyzer := sa\<rparr>))
           \<and> unitTime (d\<lparr>statsAnalyzer := sa\<rparr>) = unitTime d
           \<and> pulseBuffer (d\<lparr>statsAnalyzer := sa\<rparr>) = pulseBuffer d
           \<and> pendingMarkDuration (d\<lparr>statsAnalyzer := sa\<rparr>) = pendingMarkDuration d
           \<and> lastGapDuration (d\<lparr>statsAnalyzer := sa\<rparr>) = lastGapDuration d
           \<and> cfg (d\<lparr>statsAnalyzer := sa\<rparr>) = cfg d
           \<and> beamDecoder (d\<lparr>statsAnalyzer := sa\<rparr>) = beamDecoder d"
    using sa(2) by simp
  then show ?thesis by blast
qed

lemma emaUpdate_frame:
  "pulseBuffer (emaUpdate d dur th a) = pulseBuffer d"
  "pendingMarkDuration (emaUpdate d dur th a) = pendingMarkDuration d"
  "lastGapDuration (emaUpdate d dur th a) = lastGapDuration d"
  "cfg (emaUpdate d dur th a) = cfg d"
  "statsAnalyzer (emaUpdate d dur th a) = statsAnalyzer d"
  "beamDecoder (emaUpdate d dur th a) = beamDecoder d"
  by (simp_all add: emaUpdate_def Let_def)


lemma updateWPM1_ok:
  assumes "analyzer_ok (statsAnalyzer d)"
  shows "\<exists>d1 th a d'. getThreshold d dur = Some (d1, th, a) \<and> updateWPM1 d dur = Some d'
           \<and> unitTime d' = (if unitTime (emaUpdate d1 dur th a) < 10 then 60
                             else unitTime (emaUpdate d1 dur th a))
           \<and> 10 \<le> unitTime d' \<and> analyzer_ok (statsAnalyzer d')
           \<and> pulseBuffer d' = pulseBuffer d
           \<and> pendingMarkDuration d' = pendingMarkDuration d
           \<and> lastGapDuration d' = lastGapDuration d \<and> cfg d' = cfg d
           \<and> beamDecoder d' = beamDecoder d"
proof -
  obtain d1 th a where g: "getThreshold d dur = Some (d1, th, a)"
    and f: "analyzer_ok (statsAnalyzer d1)" "pulseBuffer d1 = pulseBuffer d"
      "pendingMarkDuration d1 = pendingMarkDuration d"
      "lastGapDuration d1 = lastGapDuration d" "cfg d1 = cfg d" "beamDecoder d1 = beamDecoder d"
    using getThreshold_ok [OF assms, of dur] by blast
  show ?thesis
    using f by (simp add: updateWPM1_def g Let_def emaUpdate_frame)
qed







lemma StateOn_not_Off [simp]: "StateOn \<noteq> StateOff"
  by (simp add: StateOn_def StateOff_def)

lemma FeedNew_off:
  "FeedNew sortSlice d g StateOff = Some (d\<lparr>lastGapDuration := lastGapDuration d + g\<rparr>, [])"
  by (simp add: FeedNew_def)

lemma FeedNew_stitch:
  assumes "state \<noteq> StateOff" and "0 < lastGapDuration d"
      and "lastGapDuration d < GlitchThresholdMs (cfg d)"
  shows "FeedNew sortSlice d m state =
           Some (d\<lparr>pendingMarkDuration := pendingMarkDuration d + (lastGapDuration d + m),
                   lastGapDuration := 0\<rparr>, [])"
  using assms by (simp add: FeedNew_def)

lemma FeedNew_settle:
  assumes "state \<noteq> StateOff"
      and "\<not> (0 < lastGapDuration d \<and> lastGapDuration d < GlitchThresholdMs (cfg d))"
      and "settleMark d = Some d1"
  shows "FeedNew sortSlice d m state =
           Some (settleGap sortSlice d1 m, GetResult (beamDecoder (settleGap sortSlice d1 m)))"
  using assms by (auto simp add: FeedNew_def Let_def)

lemma settleGap_frame:
  "pendingMarkDuration (settleGap sortSlice d1 m) = m"
  "lastGapDuration (settleGap sortSlice d1 m) = 0"
  "statsAnalyzer (settleGap sortSlice d1 m) = statsAnalyzer d1"
  "cfg (settleGap sortSlice d1 m) = cfg d1"
  "unitTime (settleGap sortSlice d1 m) = unitTime d1"
  by (simp_all add: settleGap_def Let_def AddCode_def)

lemma settleMark_real:
  assumes "0 < pendingMarkDuration d" and "GlitchThresholdMs (cfg d) < pendingMarkDuration d"
      and "updateWPM1 d (pendingMarkDuration d) = Some d'"
  shows "settleMark d = Some (AddCode d' (pendingMarkDuration d'))"
  using assms by (simp add: settleMark_def)

lemma settleMark_ok:
  assumes "analyzer_ok (statsAnalyzer d)"
  shows "\<exists>d1. settleMark d = Some d1 \<and> analyzer_ok (statsAnalyzer d1) \<and> cfg d1 = cfg d"
proof -
  consider (mark) "0 < pendingMarkDuration d" "GlitchThresholdMs (cfg d) < pendingMarkDuration d"
    | (noise) "0 < pendingMarkDuration d" "\<not> GlitchThresholdMs (cfg d) < pendingMarkDuration d"
    | (none) "\<not> 0 < pendingMarkDuration d"
    by blast
  then show ?thesis
  proof cases
    case mark
    obtain d' where u: "updateWPM1 d (pendingMarkDuration d) = Some d'"
      and f: "analyzer_ok (statsAnalyzer d')" "cfg d' = cfg d"
      using updateWPM1_ok [OF assms, of "pendingMarkDuration d"] by blast
    show ?thesis
      unfolding settleMark_real [OF mark u] using f by (simp add: AddCode_def)
  next
    case noise
    then show ?thesis
      using assms by (simp add: settleMark_def delCode_def Let_def)
  next
    case none
    then show ?thesis using assms by (simp add: settleMark_def)
  qed
qed

lemma FeedNew_returns:
  assumes st: "state \<noteq> StateOff"
      and ns: "\<not> (0 < lastGapDuration d \<and> lastGapDuration d < GlitchThresholdMs (cfg d))"
      and ok: "analyzer_ok (statsAnalyzer d)"
  shows "\<exists>d1. FeedNew sortSlice d m state = Some (d1, GetResult (beamDecoder d1))
           \<and> pendingMarkDuration d1 = m \<and> lastGapDuration d1 = 0
           \<and> analyzer_ok (statsAnalyzer d1) \<and> cfg d1 = cfg d"
proof -
  obtain d1 where s: "settleMark d = Some d1" "analyzer_ok (statsAnalyzer d1)" "cfg d1 = cfg d"
    using settleMark_ok [OF ok] by blast
  show ?thesis
    unfolding FeedNew_settle [OF st ns s(1)] using s by (simp add: settleGap_frame)
qed

lemma stitched_state:
  assumes fresh: "\<not> (0 < lastGapDuration d \<and> lastGapDuration d < GlitchThresholdMs (cfg d))"
      and g: "0 < g" "g < GlitchThresholdMs (cfg d)"
      and ok: "analyzer_ok (statsAnalyzer d)"
  shows "\<exists>d1. FeedNew_run sortSlice d [(m1, StateOn)] = Some d1
           \<and> FeedNew_run sortSlice d1 [(g, StateOff), (m2, StateOn)]
               = Some (d1\<lparr>pendingMarkDuration := m1 + g + m2\<rparr>)
           \<and> pendingMarkDuration d1 = m1 \<and> lastGapDuration d1 = 0
           \<and> analyzer_ok (statsAnalyzer d1) \<and> cfg d1 = cfg d"
proof -
  obtain d1 where a: "FeedNew sortSlice d m1 StateOn = Some (d1, GetResult (beamDecoder d1))"
    and f: "pendingMarkDuration d1 = m1" "lastGapDuration d1 = 0"
      "analyzer_ok (statsAnalyzer d1)" "cfg d1 = cfg d"
    using FeedNew_returns [OF StateOn_not_Off fresh ok] by blast
  let ?d2 = "d1\<lparr>lastGapDuration := lastGapDuration d1 + g\<rparr>"
  have b: "FeedNew sortSlice d1 g StateOff = Some (?d2, [])" by (rule FeedNew_off)
  have c: "FeedNew sortSlice ?d2 m2 StateOn =
             Some (?d2\<lparr>pendingMarkDuration := pendingMarkDuration ?d2 + (lastGapDuration ?d2 + m2),
                       lastGapDuration := 0\<rparr>, [])"
    by (rule FeedNew_stitch) (simp_all add: f g)
  have e: "?d2\<lparr>pendingMarkDuration := pendingMarkDuration ?d2 + (lastGapDuration ?d2 + m2),
               lastGapDuration := 0\<rparr> = d1\<lparr>pendingMarkDuration := m1 + g + m2\<rparr>"
    using f by (simp add: add.assoc)
  show ?thesis
    using a b c e f by simp
qed

lemma settled_mark:
  assumes p: "pendingMarkDuration d = T" "lastGapDuration d = 0"
      and T: "0 < T" "GlitchThresholdMs (cfg d) < T"
      and G: "0 < G" "GlitchThresholdMs (cfg d) \<le> G"
      and ok: "analyzer_ok (statsAnalyzer d)"
  shows "\<exists>d5. FeedNew_run sortSlice d [(G, StateOff), (m3, StateOn)] = Some d5
           \<and> 10 \<le> unitTime d5
           \<and> (if G > unitTime d5 * 2.5
               then pulseBuffer d5 = []
                    \<and> beamDecoder d5 =
                        (if G > unitTime d5 * 5
                         then InjectSpace sortSlice
                                (Step sortSlice (beamDecoder d) (pulseBuffer d @ [T / unitTime d5]))
                         else Step sortSlice (beamDecoder d) (pulseBuffer d @ [T / unitTime d5]))
               else pulseBuffer d5 = pulseBuffer d @ [T / unitTime d5, G / unitTime d5]
                    \<and> beamDecoder d5 = beamDecoder d)"
proof -
  let ?d4 = "d\<lparr>lastGapDuration := lastGapDuration d + G\<rparr>"
  have b: "FeedNew sortSlice d G StateOff = Some (?d4, [])" by (rule FeedNew_off)
  have ok4: "analyzer_ok (statsAnalyzer ?d4)" using ok by simp
  obtain du where u: "updateWPM1 ?d4 (pendingMarkDuration ?d4) = Some du"
    and f: "10 \<le> unitTime du" "pulseBuffer du = pulseBuffer ?d4"
      "pendingMarkDuration du = pendingMarkDuration ?d4"
      "lastGapDuration du = lastGapDuration ?d4" "beamDecoder du = beamDecoder ?d4"
    using updateWPM1_ok [OF ok4, of "pendingMarkDuration ?d4"] by blast
  have sm: "settleMark ?d4 = Some (AddCode du (pendingMarkDuration du))"
    by (rule settleMark_real [OF _ _ u]) (simp_all add: p T)
  have ns: "\<not> (0 < lastGapDuration ?d4 \<and> lastGapDuration ?d4 < GlitchThresholdMs (cfg ?d4))"
    using G p by simp
  have c: "FeedNew sortSlice ?d4 m3 StateOn =
             Some (settleGap sortSlice (AddCode du (pendingMarkDuration du)) m3,
                   GetResult (beamDecoder (settleGap sortSlice (AddCode du (pendingMarkDuration du)) m3)))"
    by (rule FeedNew_settle [OF StateOn_not_Off ns sm])
  let ?d5 = "settleGap sortSlice (AddCode du (pendingMarkDuration du)) m3"
  have run: "FeedNew_run sortSlice d [(G, StateOff), (m3, StateOn)] = Some ?d5"
    using b c by simp
  have u5: "unitTime ?d5 = unitTime du" by (simp add: settleGap_frame AddCode_def)
  have fields: "pendingMarkDuration du = T" "lastGapDuration du = G"
    "pulseBuffer du = pulseBuffer d" "beamDecoder du = beamDecoder d"
    using f p by simp_all
  have shape: "(if G > unitTime du * 2.5
               then pulseBuffer ?d5 = []
                    \<and> beamDecoder ?d5 =
                        (if G > unitTime du * 5
                         then InjectSpace sortSlice
                                (Step sortSlice (beamDecoder d) (pulseBuffer d @ [T / unitTime du]))
                         else Step sortSlice (beamDecoder d) (pulseBuffer d @ [T / unitTime du]))
               else pulseBuffer ?d5 = pulseBuffer d @ [T / unitTime du, G / unitTime du]
                    \<and> beamDecoder ?d5 = beamDecoder d)"
    using G(1) by (simp add: settleGap_def AddCode_def Let_def fields)
  show ?thesis
    using run f(1) shape unfolding u5 [symmetric] by blast
qed

lemma CheckTimeout_pending:
  assumes "0 < pendingMarkDuration d"
  shows "pulseBuffer (fst (CheckTimeout sortSlice d)) = []
         \<and> beamDecoder (fst (CheckTimeout sortSlice d)) =
             Step sortSlice (beamDecoder d) (pulseBuffer d @ [pendingMarkDuration d / unitTime d])"
  using assms by (simp add: CheckTimeout_def AddCode_def Let_def)

text \<open>
  C1. A mark is delivered to \<^verbatim>\<open>FeedNew\<close> as the events mark \<open>m1\<close>, gap \<open>g\<close>, mark \<open>m2\<close>,
  where the gap is positive and shorter than the glitch threshold, the total
  \<open>T = m1 + g + m2\<close> is at least twice the glitch threshold, and the first part starts a
  mark of its own (the gap before it is not a glitch). Then the gap and the second part
  add nothing to the pulse buffer and leave the decoder as it was after the first part,
  except that the pending mark is \<open>T\<close>. When that mark is settled, by the next mark after
  a gap \<open>G\<close> that is not a glitch, exactly one pulse \<open>T / unit_time\<close> is appended for it
  (with the unit time as updated from \<open>T\<close>): the buffer is the one before the mark
  followed by that pulse and the pulse of the gap \<open>G\<close>, or, when \<open>G\<close> ends the character,
  the buffer before the mark followed by that one pulse is handed to the beam decoder.
  \<^verbatim>\<open>CheckTimeout\<close> likewise hands over the buffer followed by the one pulse
  \<open>T / unit_time\<close>.
\<close>

theorem C1_glitch_stitch:
  assumes "\<not> (0 < lastGapDuration d \<and> lastGapDuration d < GlitchThresholdMs (cfg d))"
      and "0 < g" and "g < GlitchThresholdMs (cfg d)"
      and "2 * GlitchThresholdMs (cfg d) \<le> m1 + g + m2"
      and "GlitchThresholdMs (cfg d) \<le> G"
      and "analyzer_ok (statsAnalyzer d)"
  shows "\<exists>d1 d5.
           FeedNew_run sortSlice d [(m1, StateOn)] = Some d1
         \<and> FeedNew_run sortSlice d1 [(g, StateOff), (m2, StateOn)]
             = Some (d1\<lparr>pendingMarkDuration := m1 + g + m2\<rparr>)
         \<and> FeedNew_run sortSlice (d1\<lparr>pendingMarkDuration := m1 + g + m2\<rparr>)
               [(G, StateOff), (m3, StateOn)] = Some d5
         \<and> 10 \<le> unitTime d5
         \<and> (if G > unitTime d5 * 2.5
             then pulseBuffer d5 = []
                  \<and> beamDecoder d5 =
                      (if G > unitTime d5 * 5
                       then InjectSpace sortSlice
                              (Step sortSlice (beamDecoder d1)
                                 (pulseBuffer d1 @ [(m1 + g + m2) / unitTime d5]))
                       else Step sortSlice (beamDecoder d1)
                              (pulseBuffer d1 @ [(m1 + g + m2) / unitTime d5]))
             else pulseBuffer d5
                    = pulseBuffer d1 @ [(m1 + g + m2) / unitTime d5, G / unitTime d5]
                  \<and> beamDecoder d5 = beamDecoder d1)
         \<and> pulseBuffer (fst (CheckTimeout sortSlice (d1\<lparr>pendingMarkDuration := m1 + g + m2\<rparr>))) = []
         \<and> beamDecoder (fst (CheckTimeout sortSlice (d1\<lparr>pendingMarkDuration := m1 + g + m2\<rparr>)))
             = Step sortSlice (beamDecoder d1) (pulseBuffer d1 @ [(m1 + g + m2) / unitTime d1])"
proof -
  obtain d1 where a: "FeedNew_run sortSlice d [(m1, StateOn)] = Some d1"
    and b: "FeedNew_run sortSlice d1 [(g, StateOff), (m2, StateOn)]
               = Some (d1\<lparr>pendingMarkDuration := m1 + g + m2\<rparr>)"
    and f: "lastGapDuration d1 = 0" "analyzer_ok (statsAnalyzer d1)" "cfg d1 = cfg d"
    using stitched_state [OF assms(1) assms(2) assms(3) assms(6), of sortSlice m1 m2] by blast
  let ?d3 = "d1\<lparr>pendingMarkDuration := m1 + g + m2\<rparr>"
  let ?T = "m1 + g + m2"
  have T: "0 < ?T" "GlitchThresholdMs (cfg ?d3) < ?T"
    using assms(2,3,4) f(3) by simp_all
  have G: "0 < G" "GlitchThresholdMs (cfg ?d3) \<le> G"
    using assms(2,3,5) f(3) by simp_all
  have p: "pendingMarkDuration ?d3 = ?T" "lastGapDuration ?d3 = 0"
    using f by simp_all
  have ok: "analyzer_ok (statsAnalyzer ?d3)" using f by simp
  obtain d5 where c: "FeedNew_run sortSlice ?d3 [(G, StateOff), (m3, StateOn)] = Some d5"
    and u: "10 \<le> unitTime d5"
    and s: "(if G > unitTime d5 * 2.5
               then pulseBuffer d5 = []
                    \<and> beamDecoder d5 =
                        (if G > unitTime d5 * 5
                         then InjectSpace sortSlice
                                (Step sortSlice (beamDecoder ?d3) (pulseBuffer ?d3 @ [?T / unitTime d5]))
                         else Step sortSlice (beamDecoder ?d3) (pulseBuffer ?d3 @ [?T / unitTime d5]))
               else pulseBuffer d5 = pulseBuffer ?d3 @ [?T / unitTime d5, G / unitTime d5]
                    \<and> beamDecoder d5 = beamDecoder ?d3)"
    using settled_mark [OF p T G ok, of sortSlice m3] by blast
  have ct: "pulseBuffer (fst (CheckTimeout sortSlice ?d3)) = []
         \<and> beamDecoder (fst (CheckTimeout sortSlice ?d3)) =
             Step sortSlice (beamDecoder ?d3) (pulseBuffer ?d3 @ [pendingMarkDuration ?d3 / unitTime ?d3])"
    by (rule CheckTimeout_pending) (simp add: T(1))
  have s': "(if G > unitTime d5 * 2.5
             then pulseBuffer d5 = []
                  \<and> beamDecoder d5 =
                      (if G > unitTime d5 * 5
                       then InjectSpace sortSlice
                              (Step sortSlice (beamDecoder d1)
                                 (pulseBuffer d1 @ [(m1 + g + m2) / unitTime d5]))
                       else Step sortSlice (beamDecoder d1)
                              (pulseBuffer d1 @ [(m1 + g + m2) / unitTime d5]))
             else pulseBuffer d5
                    = pulseBuffer d1 @ [(m1 + g + m2) / unitTime d5, G / unitTime d5]
                  \<and> beamDecoder d5 = beamDecoder d1)"
    using s by simp
  have ct': "pulseBuffer (fst (CheckTimeout sortSlice ?d3)) = []
         \<and> beamDecoder (fst (CheckTimeout sortSlice ?d3))
             = Step sortSlice (beamDecoder d1) (pulseBuffer d1 @ [(m1 + g + m2) / unitTime d1])"
    using ct by simp
  show ?thesis
    using a b c u s' ct' by blast
qed

lemma test_decoder:
  "lastGapDuration (NewCWDecoder testConfig emptyModel) = 0"
  "GlitchThresholdMs (cfg (NewCWDecoder testConfig emptyModel)) = 20"
  "analyzer_ok (statsAnalyzer (NewCWDecoder testConfig emptyModel))"
  by (simp_all add: NewCWDecoder_def testConfig_def NewAnalyzer_def analyzer_ok_def)

theorem C1_glitch_stitch_witness:
  "\<exists>d1 d5.
     FeedNew_run insertionSortDesc (NewCWDecoder testConfig emptyModel) [(100, StateOn)] = Some d1
     \<and> FeedNew_run insertionSortDesc d1 [(10, StateOff), (70, StateOn)]
         = Some (d1\<lparr>pendingMarkDuration := 100 + 10 + 70\<rparr>)
     \<and> FeedNew_run insertionSortDesc (d1\<lparr>pendingMarkDuration := 100 + 10 + 70\<rparr>)
           [(300, StateOff), (60, StateOn)] = Some d5
     \<and> 10 \<le> unitTime d5
     \<and> (if 300 > unitTime d5 * 2.5
         then pulseBuffer d5 = []
              \<and> beamDecoder d5 =
                  (if 300 > unitTime d5 * 5
                   then InjectSpace insertionSortDesc
                          (Step insertionSortDesc (beamDecoder d1)
                             (pulseBuffer d1 @ [(100 + 10 + 70) / unitTime d5]))
                   else Step insertionSortDesc (beamDecoder d1)
                          (pulseBuffer d1 @ [(100 + 10 + 70) / unitTime d5]))
         else pulseBuffer d5 = pulseBuffer d1 @ [(100 + 10 + 70) / unitTime d5, 300 / unitTime d5]
              \<and> beamDecoder d5 = beamDecoder d1)
     \<and> pulseBuffer (fst (CheckTimeout insertionSortDesc (d1\<lparr>pendingMarkDuration := 100 + 10 + 70\<rparr>))) = []
     \<and> beamDecoder (fst (CheckTimeout insertionSortDesc (d1\<lparr>pendingMarkDuration := 100 + 10 + 70\<rparr>)))
         = Step insertionSortDesc (beamDecoder d1) (pulseBuffer d1 @ [(100 + 10 + 70) / unitTime d1])"
proof -
  have h1: "\<not> (0 < lastGapDuration (NewCWDecoder testConfig emptyModel)
              \<and> lastGapDuration (NewCWDecoder testConfig emptyModel)
                  < GlitchThresholdMs (cfg (NewCWDecoder testConfig emptyModel)))"
    by (simp add: test_decoder)
  have h2: "(0::real) < 10" by simp
  have h3: "10 < GlitchThresholdMs (cfg (NewCWDecoder testConfig emptyModel))"
    by (simp add: test_decoder)
  have h4: "2 * GlitchThresholdMs (cfg (NewCWDecoder testConfig emptyModel)) \<le> 100 + 10 + 70"
    by (simp add: test_decoder)
  have h5: "GlitchThresholdMs (cfg (NewCWDecoder testConfig emptyModel)) \<le> 300"
    by (simp add: test_decoder)
  show ?thesis
    by (rule C1_glitch_stitch [OF h1 h2 h3 h4 h5 test_decoder(3)])
qed

end
